theory Spec2Isabelle
  imports Complex_Main "HOL-Library.Multiset" "HOL-Library.Log_Nat"
begin

section \<open>Data model of session.js\<close>

text \<open>
  The session engine of the flashcard application (\<^verbatim>\<open>src/session.js\<close>) works on plain
  JavaScript objects. The embedding keeps the distinctions the code depends on.

  \<^item> A property of a card object is missing, \<^verbatim>\<open>null\<close>, or holds a value. The
    difference between missing and \<^verbatim>\<open>null\<close> matters for \<^verbatim>\<open>Object.assign\<close> in
    \<^verbatim>\<open>rewind\<close>, which copies every property the snapshot owns (also a \<^verbatim>\<open>null\<close>
    one) and leaves every other property of the target alone.
  \<^item> Calendar dates are the strings \<^verbatim>\<open>YYYY-MM-DD\<close> produced by \<^verbatim>\<open>getTodayStr\<close>; they
    are represented by their day number, so that the string comparison
    \<^verbatim>\<open>c.dueDate <= today\<close> is \<open>\<le>\<close>. The value of \<^verbatim>\<open>getTodayStr()\<close>, the current date in
    UTC, is a parameter \<open>today\<close> of every operation that reads it; the time zone of the
    environment, which \<^verbatim>\<open>addDays\<close> reads through \<^verbatim>\<open>Date\<close>, is a parameter too.
  \<^item> JavaScript numbers are IEEE binary64 numbers. A finite one is represented by the
    rational it denotes, and every arithmetic operation and every decimal literal of
    the source rounds its exact result to the nearest binary64 number (\<open>to_double\<close>).
    \<^verbatim>\<open>NaN\<close>, the infinities and overflow are outside the model.
  \<^item> Ratings, learning modes and session statuses are the strings of the source.
\<close>

type_synonym date = int

datatype 'a jsprop = Absent | Null | Val 'a

record card =
  word :: "string jsprop"
  translation :: "string jsprop"
  sessionStatus :: "string jsprop"
  dueDate :: "date jsprop"
  interval :: "rat jsprop"
  easeFactor :: "rat jsprop"

subsection \<open>Binary64 arithmetic\<close>

text \<open>\<open>ilog2 x\<close> is the exponent \<open>e\<close> of a positive rational, \<open>2 powi e \<le> x < 2 powi (e + 1)\<close>
  (\<open>ilog2_bounds\<close> below), computed from the bit lengths of numerator and
  denominator.\<close>

definition ilog2 :: "rat \<Rightarrow> int" where
  "ilog2 x =
    (let (p, q) = quotient_of x;
         e = int (floorlog 2 (nat p)) - int (floorlog 2 (nat q))
     in if 2 powi e \<le> x then e else e - 1)"

text \<open>Rounding to the nearest integer, a tie going to the even one.\<close>

definition round_even :: "rat \<Rightarrow> int" where
  "round_even y =
    (let f = \<lfloor>y\<rfloor>; d = y - of_int f
     in if d < 1 / 2 then f else if 1 / 2 < d then f + 1 else if even f then f else f + 1)"

text \<open>The binary64 number nearest to \<open>x\<close>: 53 significant bits, so the numbers with
  exponent \<open>e\<close> are the multiples of \<open>2 powi (e - 52)\<close>, and below \<open>2 powi (- 1022)\<close> the
  subnormal numbers keep the spacing of exponent \<open>- 1022\<close>; a tie goes to the even
  significand.\<close>

definition to_double :: "rat \<Rightarrow> rat" where
  "to_double x =
    (if x = 0 then 0
     else let e = max (ilog2 \<bar>x\<bar>) (- 1022); q = 2 powi (e - 52)
          in of_int (round_even (x / q)) * q)"

text \<open>The operators \<^verbatim>\<open>*\<close>, \<^verbatim>\<open>+\<close>, \<^verbatim>\<open>-\<close> and \<^verbatim>\<open>/\<close> on numbers.\<close>

definition js_mul :: "rat \<Rightarrow> rat \<Rightarrow> rat" where
  "js_mul a b = to_double (a * b)"

definition js_add :: "rat \<Rightarrow> rat \<Rightarrow> rat" where
  "js_add a b = to_double (a + b)"

definition js_sub :: "rat \<Rightarrow> rat \<Rightarrow> rat" where
  "js_sub a b = to_double (a - b)"

definition js_div :: "rat \<Rightarrow> rat \<Rightarrow> rat" where
  "js_div a b = to_double (a / b)"

subsection \<open>Reading a number, rounding, adding days\<close>

text \<open>\<^verbatim>\<open>x || d\<close> on a numeric property: the default is taken when the property is
  missing, \<^verbatim>\<open>null\<close> or \<open>0\<close> (the falsy numbers of the model).\<close>

fun num_or :: "rat jsprop \<Rightarrow> rat \<Rightarrow> rat" where
  "num_or (Val r) d = (if r = 0 then d else r)"
| "num_or Null d = d"
| "num_or Absent d = d"

text \<open>\<^verbatim>\<open>Math.round\<close>: the nearest integer, a tie going towards \<open>+\<infinity>\<close>; the result is
  exact, as the integer nearest to a binary64 number is one.\<close>

definition Math_round :: "rat \<Rightarrow> int" where
  "Math_round x = \<lfloor>x + 0.5\<rfloor>"

text \<open>\<^verbatim>\<open>addDays(dateStr, days)\<close>, lines 19 to 23. \<^verbatim>\<open>new Date(dateStr + 'T12:00:00')\<close> is
  noon of that day in local time, \<^verbatim>\<open>setDate\<close> moves the local day by \<^verbatim>\<open>days\<close> and keeps
  the local time, and \<^verbatim>\<open>toISOString\<close> gives the date of that instant in UTC. The
  environment is the function \<open>utcOffset\<close>: the minutes by which local time is ahead of
  UTC at noon of a local day. Local noon of day \<open>d\<close> is minute \<open>720 - utcOffset d\<close> of
  the UTC day \<open>d\<close>, which lies in that day, in the day before (offsets beyond 12 hours)
  or in the day after (offset of -12 hours).\<close>

definition addDays :: "(date \<Rightarrow> int) \<Rightarrow> date \<Rightarrow> int \<Rightarrow> date" where
  "addDays utcOffset dateStr days =
    (let localDay = dateStr + days
     in localDay + (720 - utcOffset localDay) div 1440)"

section \<open>The SM-2 rating step\<close>

text \<open>\<^verbatim>\<open>applySpacedRating(card, rating, today)\<close>, lines 146 to 170, in the environment
  \<open>utcOffset\<close> that its calls of \<^verbatim>\<open>addDays\<close> read. The triple bound in
  the middle holds the local variables \<^verbatim>\<open>interval\<close> and \<^verbatim>\<open>ease\<close> and the card after the
  assignment to \<^verbatim>\<open>dueDate\<close> of the branch taken; a rating that is none of the four
  strings takes no branch.\<close>

definition applySpacedRating :: "(date \<Rightarrow> int) \<Rightarrow> card \<Rightarrow> string \<Rightarrow> date \<Rightarrow> card" where
  "applySpacedRating utcOffset c rating today =
    (let interval0 = num_or (interval c) 1;
         ease0 = num_or (easeFactor c) 2.5;
         (interval1, ease1, card1) =
           (if rating = ''again'' then
              (1, max (to_double 1.3) (js_sub ease0 (to_double 0.2)),
               c\<lparr>dueDate := Val today\<rparr>)
            else if rating = ''hard'' then
              (let i = max 1 (Math_round (js_mul interval0 (to_double 1.2)))
               in (of_int i, max (to_double 1.3) (js_sub ease0 (to_double 0.15)),
                   c\<lparr>dueDate := Val (addDays utcOffset today i)\<rparr>))
            else if rating = ''good'' then
              (let i = max 1 (Math_round (js_mul interval0 ease0))
               in (of_int i, ease0, c\<lparr>dueDate := Val (addDays utcOffset today i)\<rparr>))
            else if rating = ''easy'' then
              (let i = max 1 (Math_round (js_mul (js_mul interval0 ease0) (to_double 1.3)))
               in (of_int i, js_add ease0 (to_double 0.15),
                   c\<lparr>dueDate := Val (addDays utcOffset today i)\<rparr>))
            else (interval0, ease0, c))
     in card1\<lparr>interval := Val interval1,
              easeFactor := Val (js_div (of_int (Math_round (js_mul ease1 1000))) 1000),
              sessionStatus := Val ''SPACED''\<rparr>)"

section \<open>Decks, the heap of card objects and the session state\<close>

text \<open>
  Card objects live on a heap and are named by references: \<^verbatim>\<open>deck.cards\<close> and the
  module variable \<^verbatim>\<open>queue\<close> are arrays of references, so a queue entry can be the very
  object of the deck (\<^verbatim>\<open>c === queueCard\<close>), or another object with the same word and
  translation. The deck-level counters may be missing or \<^verbatim>\<open>null\<close> (\<open>None\<close>); the
  code reads them through \<^verbatim>\<open>|| 0\<close> and \<^verbatim>\<open>|| 5\<close>. They are integers, on which the
  additions and subtractions of the code are exact.
\<close>

type_synonym ref = nat

record deck =
  dailyLimit :: "int option"
  learningMode :: string
  cards :: "ref list"
  lastSessionDate :: "date option"
  cardsReviewedToday :: "int option"
  sessionExtension :: "int option"

fun int_or :: "int option \<Rightarrow> int \<Rightarrow> int" where
  "int_or (Some n) d = (if n = 0 then d else n)"
| "int_or None d = d"

record backup =
  index :: nat
  cardSnapshot :: card
  deckCardRef :: ref
  backupReviewedToday :: int

text \<open>The module variables \<^verbatim>\<open>queue\<close>, \<^verbatim>\<open>currentIndex\<close> and \<^verbatim>\<open>rewindBackup\<close>, together with
  the deck object the caller passes to every operation and the heap of card objects.\<close>

record state =
  heap :: "ref \<Rightarrow> card"
  deck :: deck
  queue :: "ref list"
  currentIndex :: nat
  rewindBackup :: "backup option"

section \<open>Day reset and queue building\<close>

text \<open>\<^verbatim>\<open>checkDayReset(deck)\<close>, lines 32 to 39.\<close>

definition checkDayReset :: "date \<Rightarrow> deck \<Rightarrow> deck" where
  "checkDayReset today d =
    (if lastSessionDate d \<noteq> Some today
     then d\<lparr>lastSessionDate := Some today, cardsReviewedToday := Some 0,
            sessionExtension := Some 0\<rparr>
     else d)"

text \<open>The shuffle of lines 68 to 71. \<open>shuffle_from pick i xs\<close> runs the loop body for
  \<open>i, i - 1, \<dots>, 1\<close>, where \<open>pick i\<close> is the index \<^verbatim>\<open>j\<close> drawn in the iteration with
  loop variable \<open>i\<close>. The destructuring assignment reads both elements before it
  writes \<^verbatim>\<open>candidates[i]\<close> and then \<^verbatim>\<open>candidates[j]\<close>.\<close>

fun shuffle_from :: "(nat \<Rightarrow> nat) \<Rightarrow> nat \<Rightarrow> 'a list \<Rightarrow> 'a list" where
  "shuffle_from pick 0 xs = xs"
| "shuffle_from pick (Suc i) xs =
     shuffle_from pick i (xs[Suc i := xs ! pick (Suc i), pick (Suc i) := xs ! Suc i])"

text \<open>\<^verbatim>\<open>Math.random()\<close> is a parameter: \<open>rnd k\<close> is what its \<open>k\<close>-th call during one
  \<^verbatim>\<open>buildQueue\<close> returns (the first call is \<open>k = 0\<close>), a number in \<open>[0, 1)\<close>. The source
  is the ideal one, any rational in \<open>[0, 1)\<close>, and its product with \<open>i + 1\<close> is exact. The
  iteration with loop variable \<open>i\<close> makes call number \<open>length xs - 1 - i\<close> and draws
  \<^verbatim>\<open>Math.floor(Math.random() * (i + 1))\<close>.\<close>

definition draw :: "(nat \<Rightarrow> rat) \<Rightarrow> nat \<Rightarrow> nat \<Rightarrow> nat" where
  "draw rnd n i = nat \<lfloor>rnd (n - 1 - i) * of_nat (i + 1)\<rfloor>"

definition shuffle :: "(nat \<Rightarrow> rat) \<Rightarrow> 'a list \<Rightarrow> 'a list" where
  "shuffle rnd xs = shuffle_from (draw rnd (length xs)) (length xs - 1) xs"

text \<open>The two filters of lines 59 to 65: \<^verbatim>\<open>!c.dueDate || c.dueDate <= today\<close> in spaced
  mode, \<^verbatim>\<open>c.sessionStatus !== 'FINISHED'\<close> otherwise.\<close>

fun due :: "date \<Rightarrow> card \<Rightarrow> bool" where
  "due today c = (case dueDate c of Val d \<Rightarrow> d \<le> today | _ \<Rightarrow> True)"

definition notFinished :: "card \<Rightarrow> bool" where
  "notFinished c = (sessionStatus c \<noteq> Val ''FINISHED'')"

definition candidates :: "date \<Rightarrow> (ref \<Rightarrow> card) \<Rightarrow> deck \<Rightarrow> ref list" where
  "candidates today h d =
    (if learningMode d = ''spaced'' then filter (\<lambda>r. due today (h r)) (cards d)
     else filter (\<lambda>r. notFinished (h r)) (cards d))"

definition effectiveLimit :: "deck \<Rightarrow> int" where
  "effectiveLimit d = int_or (dailyLimit d) 5 + int_or (sessionExtension d) 0"

definition remaining :: "deck \<Rightarrow> int" where
  "remaining d = max 0 (effectiveLimit d - int_or (cardsReviewedToday d) 0)"

text \<open>\<^verbatim>\<open>buildQueue(deck)\<close>, lines 49 to 76.\<close>

definition buildQueue :: "date \<Rightarrow> (nat \<Rightarrow> rat) \<Rightarrow> state \<Rightarrow> state" where
  "buildQueue today rnd s =
    (let d = checkDayReset today (deck s)
     in s\<lparr>deck := d,
          queue := take (nat (remaining d)) (shuffle rnd (candidates today (heap s) d)),
          currentIndex := 0,
          rewindBackup := None\<rparr>)"

section \<open>Queries\<close>

definition getCurrentCard :: "state \<Rightarrow> ref option" where
  "getCurrentCard s =
    (if currentIndex s \<ge> length (queue s) then None else Some (queue s ! currentIndex s))"

definition isComplete :: "state \<Rightarrow> bool" where
  "isComplete s = (currentIndex s \<ge> length (queue s))"

definition canRewind :: "state \<Rightarrow> bool" where
  "canRewind s = (rewindBackup s \<noteq> None)"

section \<open>Rating and rewind\<close>

text \<open>The predicate of \<^verbatim>\<open>deck.cards.find\<close> in \<^verbatim>\<open>rateCard\<close>: the same object, or equal
  \<^verbatim>\<open>word\<close> and equal \<^verbatim>\<open>translation\<close> (strict equality, under which two missing
  properties are equal).\<close>

definition matches :: "(ref \<Rightarrow> card) \<Rightarrow> ref \<Rightarrow> ref \<Rightarrow> bool" where
  "matches h queueCard c =
    (c = queueCard \<or>
     (word (h c) = word (h queueCard) \<and> translation (h c) = translation (h queueCard)))"

text \<open>\<^verbatim>\<open>rateCard(deck, rating)\<close>, lines 108 to 141, in the environment \<open>utcOffset\<close>.\<close>

definition rateCard :: "(date \<Rightarrow> int) \<Rightarrow> date \<Rightarrow> string \<Rightarrow> state \<Rightarrow> state" where
  "rateCard utcOffset today rating s =
    (if currentIndex s \<ge> length (queue s) then s
     else
       (case find (matches (heap s) (queue s ! currentIndex s)) (cards (deck s)) of
          None \<Rightarrow> s\<lparr>currentIndex := currentIndex s + 1\<rparr>
        | Some deckCard \<Rightarrow>
            s\<lparr>heap :=
                (if learningMode (deck s) = ''spaced'' then
                   (heap s)(deckCard :=
                     applySpacedRating utcOffset (heap s deckCard) rating today)
                 else if rating = ''remembered'' then
                   (heap s)(deckCard := (heap s deckCard)\<lparr>sessionStatus := Val ''FINISHED''\<rparr>)
                 else heap s),
              deck := (deck s)\<lparr>cardsReviewedToday :=
                        Some (int_or (cardsReviewedToday (deck s)) 0 + 1)\<rparr>,
              currentIndex := currentIndex s + 1,
              rewindBackup :=
                Some \<lparr>index = currentIndex s, cardSnapshot = heap s deckCard,
                      deckCardRef = deckCard,
                      backupReviewedToday = int_or (cardsReviewedToday (deck s)) 0\<rparr>\<rparr>))"

text \<open>\<^verbatim>\<open>Object.assign(target, source)\<close>: every property the source owns is written to the
  target, a \<^verbatim>\<open>null\<close> one too; a property the source does not own keeps the target's
  value.\<close>

fun assign_prop :: "'a jsprop \<Rightarrow> 'a jsprop \<Rightarrow> 'a jsprop" where
  "assign_prop t Absent = t"
| "assign_prop t Null = Null"
| "assign_prop t (Val v) = Val v"

definition Object_assign :: "card \<Rightarrow> card \<Rightarrow> card" where
  "Object_assign target source =
    \<lparr>word = assign_prop (word target) (word source),
     translation = assign_prop (translation target) (translation source),
     sessionStatus = assign_prop (sessionStatus target) (sessionStatus source),
     dueDate = assign_prop (dueDate target) (dueDate source),
     interval = assign_prop (interval target) (interval source),
     easeFactor = assign_prop (easeFactor target) (easeFactor source)\<rparr>"

text \<open>\<^verbatim>\<open>rewind(deck)\<close>, lines 179 to 196; the second component is the returned boolean.
  The write \<^verbatim>\<open>queue[index] = deckCardRef\<close> is a list update: the saved index is a
  position of the queue whenever a backup is pending (\<open>backup_index_in_queue\<close> below).\<close>

definition rewind :: "state \<Rightarrow> state \<times> bool" where
  "rewind s =
    (case rewindBackup s of
       None \<Rightarrow> (s, False)
     | Some b \<Rightarrow>
         (s\<lparr>heap := (heap s)(deckCardRef b :=
                      Object_assign (heap s (deckCardRef b)) (cardSnapshot b)),
            queue := (queue s)[index b := deckCardRef b],
            currentIndex := index b,
            deck := (deck s)\<lparr>cardsReviewedToday := Some (backupReviewedToday b)\<rparr>,
            rewindBackup := None\<rparr>, True))"

text \<open>\<^verbatim>\<open>extendSession(deck, amount)\<close>, lines 202 to 205.\<close>

definition extendSession :: "date \<Rightarrow> (nat \<Rightarrow> rat) \<Rightarrow> int \<Rightarrow> state \<Rightarrow> state" where
  "extendSession today rnd amount s =
    buildQueue today rnd
      (s\<lparr>deck := (deck s)\<lparr>sessionExtension :=
                   Some (int_or (sessionExtension (deck s)) 0 + max 1 amount)\<rparr>\<rparr>)"

section \<open>The scheduling table of the specification\<close>

text \<open>The table of the specification, column by column, for an interval \<open>i\<close> and an
  ease \<open>e\<close> already read from the card, with the products, sums and differences taken
  as JavaScript takes them. Rounding of the interval is to the nearest integer, a tie
  going away from zero, as the specification words it.\<close>

definition spec_round :: "rat \<Rightarrow> int" where
  "spec_round x = (if 0 \<le> x then \<lfloor>x + 1 / 2\<rfloor> else - \<lfloor>- x + 1 / 2\<rfloor>)"

definition sm2_interval :: "string \<Rightarrow> rat \<Rightarrow> rat \<Rightarrow> int" where
  "sm2_interval rating i e =
    (if rating = ''again'' then 1
     else if rating = ''hard'' then max 1 (spec_round (js_mul i (to_double 1.2)))
     else if rating = ''good'' then max 1 (spec_round (js_mul i e))
     else max 1 (spec_round (js_mul (js_mul i e) (to_double 1.3))))"

definition sm2_ease :: "string \<Rightarrow> rat \<Rightarrow> rat" where
  "sm2_ease rating e =
    (if rating = ''again'' then max (to_double 1.3) (js_sub e (to_double 0.2))
     else if rating = ''hard'' then max (to_double 1.3) (js_sub e (to_double 0.15))
     else if rating = ''good'' then e
     else js_add e (to_double 0.15))"

text \<open>Rounding to three decimal places: the number of thousandths is rounded to an
  integer, and the quotient by 1000 is the binary64 number nearest to that many
  thousandths.\<close>

definition round3 :: "rat \<Rightarrow> rat" where
  "round3 x = js_div (of_int \<lfloor>js_mul x 1000 + 1 / 2\<rfloor>) 1000"

section \<open>Example environments and objects\<close>

text \<open>Two time zones: UTC itself, and a zone thirteen hours ahead of UTC all year (as
  Tonga, or New Zealand in its summer).\<close>

definition utc :: "date \<Rightarrow> int" where
  "utc d = 0"

definition utc_plus_13 :: "date \<Rightarrow> int" where
  "utc_plus_13 d = 780"

text \<open>A card as the application creates it (\<^verbatim>\<open>createExampleDeck\<close>, \<^verbatim>\<open>saveCard\<close>).\<close>

definition hola :: card where
  "hola = \<lparr>word = Val ''Hola'', translation = Val ''Hello'',
           sessionStatus = Val ''TO_REVIEW'', dueDate = Null,
           interval = Val 1, easeFactor = Val 2.5\<rparr>"

text \<open>A card that has been reviewed a few times: interval 10 days, ease 2.\<close>

definition casa :: card where
  "casa = \<lparr>word = Val ''Casa'', translation = Val ''House'',
           sessionStatus = Val ''SPACED'', dueDate = Val 20000,
           interval = Val 10, easeFactor = Val 2\<rparr>"

definition adios :: card where
  "adios = \<lparr>word = Val ''Adios'', translation = Val ''Goodbye'',
            sessionStatus = Val ''TO_REVIEW'', dueDate = Null,
            interval = Val 1, easeFactor = Val 2.5\<rparr>"

definition gracias :: card where
  "gracias = \<lparr>word = Val ''Gracias'', translation = Val ''Thank you'',
              sessionStatus = Val ''TO_REVIEW'', dueDate = Null,
              interval = Val 1, easeFactor = Val 2.5\<rparr>"

text \<open>A heap with these three cards at the references 0, 1 and 2.\<close>

definition three_cards :: "ref \<Rightarrow> card" where
  "three_cards r = (if r = 0 then hola else if r = 1 then adios else gracias)"

text \<open>The deck of the day-boundary example: last used the day before day 20000, five
  cards reviewed and an extension of three on that day.\<close>

definition yesterday_deck :: deck where
  "yesterday_deck =
    \<lparr>dailyLimit = Some 2, learningMode = ''simple'', cards = [0, 1, 2],
     lastSessionDate = Some 19999, cardsReviewedToday = Some 5,
     sessionExtension = Some 3\<rparr>"

text \<open>The state of the module when the script has just been loaded (lines 7 to 9),
  around a deck and a heap.\<close>

definition fresh :: "(ref \<Rightarrow> card) \<Rightarrow> deck \<Rightarrow> state" where
  "fresh h d = \<lparr>heap = h, deck = d, queue = [], currentIndex = 0, rewindBackup = None\<rparr>"

text \<open>A random source whose every call returns 0.5.\<close>

definition halves :: "nat \<Rightarrow> rat" where
  "halves k = 0.5"

text \<open>A deck already used on day 20000 whose allowance (limit 2, extension 1) is used
  up.\<close>

definition used_up_deck :: deck where
  "used_up_deck =
    \<lparr>dailyLimit = Some 2, learningMode = ''simple'', cards = [0, 1, 2],
     lastSessionDate = Some 20000, cardsReviewedToday = Some 3,
     sessionExtension = Some 1\<rparr>"

text \<open>A deck without a daily limit, used earlier on day 20000, with seven cards.\<close>

definition no_limit_deck :: deck where
  "no_limit_deck =
    \<lparr>dailyLimit = None, learningMode = ''simple'', cards = [0, 1, 2, 3, 4, 5, 6],
     lastSessionDate = Some 20000, cardsReviewedToday = Some 1,
     sessionExtension = Some 2\<rparr>"

text \<open>A deck in spaced mode over a heap where card 0 was never scheduled, card 1 is due
  on day 20005 and card 2 was due on day 19990.\<close>

definition spaced_heap :: "ref \<Rightarrow> card" where
  "spaced_heap r =
    (if r = 0 then hola
     else if r = 1 then adios\<lparr>sessionStatus := Val ''SPACED'', dueDate := Val 20005\<rparr>
     else gracias\<lparr>sessionStatus := Val ''SPACED'', dueDate := Val 19990\<rparr>)"

definition spaced_deck :: deck where
  "spaced_deck =
    \<lparr>dailyLimit = Some 5, learningMode = ''spaced'', cards = [0, 1, 2],
     lastSessionDate = Some 20000, cardsReviewedToday = Some 0,
     sessionExtension = Some 0\<rparr>"

text \<open>A session whose queue entry, card 2, is no longer in the deck: the queue was built
  and the card then deleted in the card editor.\<close>

definition stale_state :: state where
  "stale_state =
    \<lparr>heap = three_cards,
     deck = \<lparr>dailyLimit = Some 2, learningMode = ''simple'', cards = [0, 1],
             lastSessionDate = Some 20000, cardsReviewedToday = Some 0,
             sessionExtension = Some 0\<rparr>,
     queue = [2], currentIndex = 0, rewindBackup = None\<rparr>"

text \<open>A card of an older record, stored without \<^verbatim>\<open>interval\<close> and \<^verbatim>\<open>easeFactor\<close> (the
  properties \<open>applySpacedRating\<close> reads through \<^verbatim>\<open>|| 1\<close> and \<^verbatim>\<open>|| 2.5\<close>), as the only card
  of a deck in spaced mode, at the head of the queue.\<close>

definition old_card :: card where
  "old_card = \<lparr>word = Val ''Hola'', translation = Val ''Hello'',
               sessionStatus = Val ''TO_REVIEW'', dueDate = Null,
               interval = Absent, easeFactor = Absent\<rparr>"

definition old_state :: state where
  "old_state =
    \<lparr>heap = (\<lambda>r. old_card),
     deck = \<lparr>dailyLimit = Some 5, learningMode = ''spaced'', cards = [0],
             lastSessionDate = Some 20000, cardsReviewedToday = Some 0,
             sessionExtension = Some 0\<rparr>,
     queue = [0], currentIndex = 0, rewindBackup = None\<rparr>"

section \<open>Sequences of operations\<close>

text \<open>The four mutating operations of the module with their arguments (the time zone,
  the day and the random source are the environment's), and a session as the list of
  operations the caller performs on one deck.\<close>

datatype operation =
  BuildQueue date "nat \<Rightarrow> rat"
| RateCard "date \<Rightarrow> int" date string
| Rewind
| ExtendSession date "nat \<Rightarrow> rat" int

fun apply_operation :: "operation \<Rightarrow> state \<Rightarrow> state" where
  "apply_operation (BuildQueue today rnd) s = buildQueue today rnd s"
| "apply_operation (RateCard utcOffset today rating) s = rateCard utcOffset today rating s"
| "apply_operation Rewind s = fst (rewind s)"
| "apply_operation (ExtendSession today rnd amount) s = extendSession today rnd amount s"

fun run :: "operation list \<Rightarrow> state \<Rightarrow> state" where
  "run [] s = s"
| "run (x # xs) s = run xs (apply_operation x s)"

text \<open>The counters as the code reads them.\<close>

definition reviewed :: "state \<Rightarrow> int" where
  "reviewed s = int_or (cardsReviewedToday (deck s)) 0"

definition extension :: "state \<Rightarrow> int" where
  "extension s = int_or (sessionExtension (deck s)) 0"

text \<open>The invariant behind the cap, for a deck with daily limit \<open>l\<close>: the cards reviewed
  today plus the queue slots still ahead of the cursor fit the allowance, and so do the
  saved count and the slots from the saved cursor on when a backup is pending.\<close>

definition session_inv :: "int \<Rightarrow> state \<Rightarrow> bool" where
  "session_inv l s =
    (dailyLimit (deck s) = Some l \<and> 0 < l
     \<and> currentIndex s \<le> length (queue s)
     \<and> reviewed s + int (length (queue s) - currentIndex s) \<le> l + extension s
     \<and> (case rewindBackup s of
          None \<Rightarrow> True
        | Some b \<Rightarrow>
            index b < length (queue s)
            \<and> backupReviewedToday b + int (length (queue s) - index b) \<le> l + extension s))"

text \<open>A session on the three example cards with daily limit 2.\<close>

definition limit2_deck :: deck where
  "limit2_deck =
    \<lparr>dailyLimit = Some 2, learningMode = ''simple'', cards = [0, 1, 2],
     lastSessionDate = None, cardsReviewedToday = None, sessionExtension = None\<rparr>"

definition example_session :: "operation list" where
  "example_session =
    [BuildQueue 20000 halves, RateCard utc 20000 ''remembered'', RateCard utc 20000 ''forgot'',
     Rewind, RateCard utc 20000 ''remembered'', RateCard utc 20000 ''remembered'',
     ExtendSession 20000 halves 1, RateCard utc 20000 ''remembered'',
     RateCard utc 20000 ''remembered'']"

section \<open>Boxes of random values\<close>

text \<open>Shuffling \<open>n\<close> candidates makes \<open>n - 1\<close> calls of \<^verbatim>\<open>Math.random\<close>; call \<open>k\<close> belongs to
  the loop variable \<open>i = n - 1 - k\<close> and chooses among \<open>i + 1 = n - k\<close> indices. For
  chosen indices \<open>J k\<close>, the random sources that draw exactly them are those whose
  \<open>k\<close>-th value lies in the interval \<open>[J k / (n - k), (J k + 1) / (n - k))\<close>: a box in
  the unit cube whose \<open>k\<close>-th side has length \<open>1 / (n - k)\<close>. Its volume is the
  probability that a source of independent uniform values lies in it.\<close>

definition in_box :: "nat \<Rightarrow> (nat \<Rightarrow> nat) \<Rightarrow> (nat \<Rightarrow> rat) \<Rightarrow> bool" where
  "in_box n J rnd =
    (\<forall>k < n - 1. of_nat (J k) / of_nat (n - k) \<le> rnd k
                 \<and> rnd k < of_nat (J k + 1) / of_nat (n - k))"

definition box_volume :: "nat \<Rightarrow> rat" where
  "box_volume n = (\<Prod>k < n - 1. 1 / of_nat (n - k))"

section \<open>Binary64 rounding\<close>

text \<open>The exponent computed by \<open>ilog2\<close> is the right one, and it is the only one.\<close>

lemma floorlog_rat_bounds:
  assumes "0 < k"
  shows "(2::rat) ^ (floorlog 2 (nat k) - 1) \<le> of_int k" "of_int k < (2::rat) ^ floorlog 2 (nat k)"
    "1 \<le> floorlog 2 (nat k)"
proof -
  have b: "2 ^ (floorlog 2 (nat k) - 1) \<le> nat k \<and> nat k < 2 ^ floorlog 2 (nat k)"
    using assms by (intro floorlog_bounds) simp_all
  have "int (2 ^ (floorlog 2 (nat k) - 1)) \<le> k" "k < int (2 ^ floorlog 2 (nat k))"
    using b assms by linarith+
  then have "(of_int (int (2 ^ (floorlog 2 (nat k) - 1))) :: rat) \<le> of_int k"
    "(of_int k :: rat) < of_int (int (2 ^ floorlog 2 (nat k)))"
    by (simp_all only: of_int_le_iff of_int_less_iff)
  then show "(2::rat) ^ (floorlog 2 (nat k) - 1) \<le> of_int k" "of_int k < (2::rat) ^ floorlog 2 (nat k)"
    by simp_all
  have "floorlog 2 (nat k) \<noteq> 0"
    using assms by (simp add: floorlog_eq_zero_iff)
  then show "1 \<le> floorlog 2 (nat k)" by simp
qed

lemma ilog2_bounds:
  assumes "0 < x"
  shows "2 powi (ilog2 x) \<le> x" and "x < 2 powi (ilog2 x + 1)"
proof -
  obtain p q where pq: "quotient_of x = (p, q)" by (cases "quotient_of x")
  have q: "0 < q" using pq by (rule quotient_of_denom_pos)
  have x: "x = of_int p / of_int q" using pq by (rule quotient_of_div)
  have p: "0 < p" using assms q unfolding x by (simp add: zero_less_divide_iff)
  define a where "a = floorlog 2 (nat p)"
  define b where "b = floorlog 2 (nat q)"
  define e where "e = int a - int b"
  note pb = floorlog_rat_bounds [OF p, folded a_def]
  note qb = floorlog_rat_bounds [OF q, folded b_def]
  have qpos: "(0::rat) < of_int q" using q by simp
  have "x < 2 ^ a / 2 ^ (b - 1)"
    unfolding x using pb(2) qb(1) p
    by (intro frac_less) simp_all
  also have "\<dots> = 2 powi (int a - int (b - 1))"
    by (simp add: power_int_diff)
  also have "int a - int (b - 1) = e + 1"
    using qb(3) by (simp add: e_def)
  finally have up: "x < 2 powi (e + 1)" .
  have "(2::rat) ^ (a - 1) / 2 ^ b < x"
    unfolding x using pb(1) qb(2) qpos
    by (intro frac_less2) simp_all
  moreover have "(2::rat) ^ (a - 1) / 2 ^ b = 2 powi (int (a - 1) - int b)"
    by (simp add: power_int_diff)
  moreover have "int (a - 1) - int b = e - 1"
    using pb(3) by (simp add: e_def)
  ultimately have lo: "2 powi (e - 1) < x" by simp
  have il: "ilog2 x = (if 2 powi e \<le> x then e else e - 1)"
    by (simp add: ilog2_def pq a_def b_def e_def Let_def)
  show "2 powi (ilog2 x) \<le> x"
    using lo by (simp add: il less_imp_le)
  show "x < 2 powi (ilog2 x + 1)"
    using up by (auto simp: il)
qed

lemma powi2_less_imp: "(2::rat) powi a < 2 powi b \<Longrightarrow> a < b"
  using power_int_increasing [of b a "2::rat"] by (cases "a < b") auto

lemma ilog2_eq:
  assumes "2 powi e \<le> x" and "x < 2 powi (e + 1)"
  shows "ilog2 x = e"
proof -
  have "(0::rat) < 2 powi e" by simp
  then have pos: "0 < x" using assms(1) by linarith
  note b = ilog2_bounds [OF pos]
  have "(2::rat) powi e < 2 powi (ilog2 x + 1)"
    using assms(1) b(2) by simp
  then have "e < ilog2 x + 1"
    by (rule powi2_less_imp)
  moreover have "(2::rat) powi (ilog2 x) < 2 powi (e + 1)"
    using assms(2) b(1) by simp
  then have "ilog2 x < e + 1"
    by (rule powi2_less_imp)
  ultimately show ?thesis by simp
qed

lemma round_even_near:
  assumes "\<bar>y - of_int n\<bar> < 1 / 2"
  shows "round_even y = n"
proof (cases "of_int n \<le> y")
  case True
  then have "\<lfloor>y\<rfloor> = n" using assms by (intro floor_unique) linarith+
  then show ?thesis using assms True by (simp add: round_even_def Let_def)
next
  case False
  have m: "(of_int (n - 1) :: rat) = of_int n - 1" by simp
  have "of_int (n - 1) \<le> y" "y < of_int (n - 1) + 1"
    unfolding m using assms False by linarith+
  then have f: "\<lfloor>y\<rfloor> = n - 1" by (rule floor_unique)
  have "1 / 2 < y - of_int (n - 1)" unfolding m using assms False by linarith
  then show ?thesis using f by (simp add: round_even_def Let_def)
qed

text \<open>How a value of \<open>to_double\<close> is checked: for \<open>x\<close> with exponent \<open>e\<close> in the normal
  range, the integer \<open>n\<close> within one half of \<open>x\<close> scaled by \<open>2 powi (52 - e)\<close> is the
  significand of the nearest binary64 number.\<close>

lemma to_double_eqI:
  assumes "2 powi e \<le> \<bar>x\<bar>" and "\<bar>x\<bar> < 2 powi (e + 1)" and "- 1022 \<le> e"
    and "\<bar>x * 2 powi (52 - e) - of_int n\<bar> < 1 / 2"
  shows "to_double x = of_int n / 2 powi (52 - e)"
proof -
  have e: "ilog2 \<bar>x\<bar> = e" using assms(1,2) by (rule ilog2_eq)
  have "(0::rat) < 2 powi e" by simp
  then have "0 < \<bar>x\<bar>" using assms(1) by linarith
  then have nz: "x \<noteq> 0" by simp
  have q: "(2::rat) powi (e - 52) = 1 / 2 powi (52 - e)"
    using power_int_minus [of "2::rat" "52 - e"] by (simp add: field_simps)
  have "round_even (x / 2 powi (e - 52)) = n"
    using assms(4) by (intro round_even_near) (simp add: q)
  then show ?thesis
    using nz e assms(3) by (simp add: to_double_def Let_def q)
qed

text \<open>\<open>to_double x\<close> is a multiple of the spacing of the binade of \<open>x\<close>, and no multiple
  is nearer to \<open>x\<close>: the error is at most half the spacing.\<close>

lemma round_even_close: "\<bar>of_int (round_even y) - y\<bar> \<le> 1 / 2"
proof -
  define d where "d = y - of_int \<lfloor>y\<rfloor>"
  have d: "0 \<le> d" "d < 1" unfolding d_def by linarith+
  have y: "y = of_int \<lfloor>y\<rfloor> + d" by (simp add: d_def)
  consider "d < 1 / 2" | "1 / 2 < d" | "d = 1 / 2" by linarith
  then show ?thesis
  proof cases
    case 1
    then have "round_even y = \<lfloor>y\<rfloor>" by (simp add: round_even_def Let_def d_def)
    then show ?thesis using 1 d by (simp add: d_def)
  next
    case 2
    then have "round_even y = \<lfloor>y\<rfloor> + 1" by (simp add: round_even_def Let_def d_def)
    then show ?thesis using 2 d by (simp add: d_def)
  next
    case 3
    then have "round_even y = \<lfloor>y\<rfloor> \<or> round_even y = \<lfloor>y\<rfloor> + 1"
      by (simp add: round_even_def Let_def d_def)
    then show ?thesis using 3 by (auto simp: d_def)
  qed
qed

lemma to_double_nearest:
  assumes "2 powi e \<le> \<bar>x\<bar>" and "\<bar>x\<bar> < 2 powi (e + 1)" and "- 1022 \<le> e"
  shows "\<exists>n. to_double x = of_int n * 2 powi (e - 52)"
    and "\<bar>to_double x - x\<bar> \<le> 2 powi (e - 52) / 2"
proof -
  define q :: rat where "q = 2 powi (e - 52)"
  have q: "0 < q" by (simp add: q_def)
  have e: "ilog2 \<bar>x\<bar> = e" using assms(1,2) by (rule ilog2_eq)
  have "(0::rat) < 2 powi e" by simp
  then have "0 < \<bar>x\<bar>" using assms(1) by linarith
  then have nz: "x \<noteq> 0" by simp
  have v: "to_double x = of_int (round_even (x / q)) * q"
    using nz e assms(3) by (simp add: to_double_def Let_def q_def)
  then show "\<exists>n. to_double x = of_int n * 2 powi (e - 52)"
    unfolding q_def by blast
  have "of_int (round_even (x / q)) * q - x = (of_int (round_even (x / q)) - x / q) * q"
    using q by (simp add: left_diff_distrib)
  then have "\<bar>of_int (round_even (x / q)) * q - x\<bar> = \<bar>of_int (round_even (x / q)) - x / q\<bar> * q"
    using q by (simp only: abs_mult abs_of_pos)
  also have "\<dots> \<le> 1 / 2 * q"
    using round_even_close [of "x / q"] q by (intro mult_right_mono) simp_all
  finally show "\<bar>to_double x - x\<bar> \<le> 2 powi (e - 52) / 2"
    unfolding v by (simp add: q_def)
qed

text \<open>The decimal literals of \<^verbatim>\<open>applySpacedRating\<close> and the intermediate results of the
  examples below, as binary64 numbers.\<close>

lemma double_00: "to_double (13 / 10) = 5854679515581645 / 4503599627370496"
  using to_double_eqI [of "0" "13 / 10" "5854679515581645"] by simp

lemma double_01: "to_double (6 / 5) = 5404319552844595 / 4503599627370496"
  using to_double_eqI [of "0" "6 / 5" "5404319552844595"] by simp

lemma double_02: "to_double (1 / 5) = 3602879701896397 / 18014398509481984"
  using to_double_eqI [of "- 3" "1 / 5" "7205759403792794"] by simp

lemma double_03: "to_double (3 / 20) = 5404319552844595 / 36028797018963968"
  using to_double_eqI [of "- 3" "3 / 20" "5404319552844595"] by simp

lemma double_04: "to_double (23 / 10) = 2589569785738035 / 1125899906842624"
  using to_double_eqI [of "1" "23 / 10" "5179139571476070"] by simp

lemma double_05: "to_double (53 / 20) = 5967269506265907 / 2251799813685248"
  using to_double_eqI [of "1" "53 / 20" "5967269506265907"] by simp

lemma double_06: "to_double (5 / 2) = 5 / 2"
  using to_double_eqI [of "1" "5 / 2" "5629499534213120"] by simp

lemma double_07: "to_double (47 / 20) = 5291729562160333 / 2251799813685248"
  using to_double_eqI [of "1" "47 / 20" "5291729562160333"] by simp

lemma double_08: "to_double (43 / 20) = 4841369599423283 / 2251799813685248"
  using to_double_eqI [of "1" "43 / 20" "4841369599423283"] by simp

lemma double_09: "to_double 2500 = 2500"
  using to_double_eqI [of "11" "2500" "5497558138880000"] by simp

lemma double_10: "to_double (29273397577908225 / 9007199254740992) = 13 / 4"
  using to_double_eqI [of "1" "29273397577908225 / 9007199254740992" "7318349394477056"] by simp

lemma double_11: "to_double (95476312100254515 / 36028797018963968) = 5967269506265907 / 2251799813685248"
  using to_double_eqI [of "1" "95476312100254515 / 36028797018963968" "5967269506265907"] by simp

lemma double_12: "to_double (745908688283238375 / 281474976710656) = 2650"
  using to_double_eqI [of "11" "745908688283238375 / 281474976710656" "5827411627212800"] by simp

lemma double_13: "to_double (41433116571808563 / 18014398509481984) = 2589569785738035 / 1125899906842624"
  using to_double_eqI [of "1" "41433116571808563 / 18014398509481984" "5179139571476070"] by simp

lemma double_14: "to_double (323696223217254375 / 140737488355328) = 2300"
  using to_double_eqI [of "11" "323696223217254375 / 140737488355328" "5057753487769600"] by simp

lemma double_15: "to_double (5404319552844595 / 4503599627370496) = 5404319552844595 / 4503599627370496"
  using to_double_eqI [of "0" "5404319552844595 / 4503599627370496" "5404319552844595"] by simp

lemma double_16: "to_double (84667672994565325 / 36028797018963968) = 5291729562160333 / 2251799813685248"
  using to_double_eqI [of "1" "84667672994565325 / 36028797018963968" "5291729562160333"] by simp

lemma double_17: "to_double (661466195270041625 / 281474976710656) = 2350"
  using to_double_eqI [of "11" "661466195270041625 / 281474976710656" "5167704650547200"] by simp

lemma double_18: "to_double 20 = 20"
  using to_double_eqI [of "4" "20" "5629499534213120"] by simp

lemma double_19: "to_double 2000 = 2000"
  using to_double_eqI [of "10" "2000" "8796093022208000"] by simp

lemma double_20: "to_double 2 = 2"
  using to_double_eqI [of "1" "2" "4503599627370496"] by simp

lemma double_21: "to_double (77461913590772525 / 36028797018963968) = 4841369599423283 / 2251799813685248"
  using to_double_eqI [of "1" "77461913590772525 / 36028797018963968" "4841369599423283"] by simp

lemma double_22: "to_double (605171199927910375 / 281474976710656) = 2150"
  using to_double_eqI [of "11" "605171199927910375 / 281474976710656" "4727899999436800"] by simp

lemma double_23: "to_double (4841369599423283 / 2251799813685248) = 4841369599423283 / 2251799813685248"
  using to_double_eqI [of "1" "4841369599423283 / 2251799813685248" "4841369599423283"] by simp

lemma double_24: "to_double (4841369599423283 / 1125899906842624) = 4841369599423283 / 1125899906842624"
  using to_double_eqI [of "2" "4841369599423283 / 1125899906842624" "4841369599423283"] by simp

lemma double_25: "to_double (4841369599423283 / 562949953421312) = 4841369599423283 / 562949953421312"
  using to_double_eqI [of "3" "4841369599423283 / 562949953421312" "4841369599423283"] by simp

lemma double_26: "to_double (43572326394809547 / 2251799813685248) = 5446540799351193 / 281474976710656"
  using to_double_eqI [of "4" "43572326394809547 / 2251799813685248" "5446540799351193"] by simp

lemma double_27: "to_double (31887750848741108171150019652485 / 1267650600228229401496703205376) = 7080503039156551 / 281474976710656"
  using to_double_eqI [of "4" "31887750848741108171150019652485 / 1267650600228229401496703205376" "7080503039156551"] by simp

lemma double_28: "to_double (82866233143617123 / 36028797018963968) = 2589569785738035 / 1125899906842624"
  using to_double_eqI [of "1" "82866233143617123 / 36028797018963968" "5179139571476070"] by simp

lemma double_29: "to_double (64739244643450875 / 1125899906842624) = 8092405580431359 / 140737488355328"
  using to_double_eqI [of "5" "64739244643450875 / 1125899906842624" "8092405580431359"] by simp

lemmas double_facts =
  double_00 double_01 double_02 double_03 double_04 double_05 double_06 double_07
  double_08 double_09 double_10 double_11 double_12 double_13 double_14 double_15
  double_16 double_17 double_18 double_19 double_20 double_21 double_22 double_23
  double_24 double_25 double_26 double_27 double_28 double_29

section \<open>Rounding to integers, adding days\<close>

lemma floor_rat_numeral [simp]:
  "\<lfloor>numeral a / numeral b :: rat\<rfloor> = numeral a div numeral b"
  by (metis floor_divide_of_int_eq of_int_numeral)

lemma max_round_agree: "max 1 (Math_round x) = max 1 (spec_round x)"
proof (cases "0 \<le> x")
  case True
  then show ?thesis by (simp add: Math_round_def spec_round_def)
next
  case False
  then have a: "\<lfloor>x + 1 / 2\<rfloor> \<le> 0" and b: "0 \<le> \<lfloor>- x + 1 / 2\<rfloor>"
    by (simp_all add: floor_le_iff le_floor_iff)
  have "Math_round x \<le> 0" using a by (simp add: Math_round_def)
  moreover have "spec_round x \<le> 0" using False b unfolding spec_round_def by simp
  ultimately show ?thesis by simp
qed

text \<open>\<^verbatim>\<open>addDays\<close> gives the date \<^verbatim>\<open>days\<close> later exactly when local noon of the target day
  lies in the same UTC day, that is for offsets from -11:59 to +12:00; thirteen hours
  ahead of UTC it gives the day before.\<close>

lemma addDays_same_day:
  assumes "- 720 < utcOffset (dateStr + days)" and "utcOffset (dateStr + days) \<le> 720"
  shows "addDays utcOffset dateStr days = dateStr + days"
proof -
  have "(720 - utcOffset (dateStr + days)) div 1440 = 0"
    using assms by (intro div_pos_pos_trivial) simp_all
  then show ?thesis by (simp add: addDays_def Let_def)
qed

lemma addDays_utc [simp]: "addDays utc dateStr days = dateStr + days"
  by (rule addDays_same_day) (simp_all add: utc_def)

lemma addDays_utc_plus_13 [simp]: "addDays utc_plus_13 dateStr days = dateStr + days - 1"
  by (simp add: addDays_def utc_plus_13_def Let_def)

section \<open>The rating step, row by row\<close>

text \<open>For each of the four ratings the step stores the row of the table, computed from
  the interval and the ease read off the card (1 and 2.5 when the property is missing,
  \<^verbatim>\<open>null\<close> or 0); the due date of \<^verbatim>\<open>hard\<close>, \<^verbatim>\<open>good\<close> and \<^verbatim>\<open>easy\<close> is what \<open>addDays\<close>
  makes of today and the new interval.\<close>

lemma applySpacedRating_rows:
  assumes "rating \<in> {''again'', ''hard'', ''good'', ''easy''}"
  shows "applySpacedRating utcOffset c rating today =
    (let i = (case interval c of Val r \<Rightarrow> if r = 0 then 1 else r | _ \<Rightarrow> 1);
         e = (case easeFactor c of Val r \<Rightarrow> if r = 0 then 2.5 else r | _ \<Rightarrow> 2.5);
         n = sm2_interval rating i e
     in c\<lparr>dueDate := Val (if rating = ''again'' then today else addDays utcOffset today n),
          interval := Val (of_int n),
          easeFactor := Val (round3 (sm2_ease rating e)),
          sessionStatus := Val ''SPACED''\<rparr>)"
proof -
  have i: "num_or (interval c) 1 = (case interval c of Val r \<Rightarrow> if r = 0 then 1 else r | _ \<Rightarrow> 1)"
    by (cases "interval c") simp_all
  have e: "num_or (easeFactor c) 2.5 =
      (case easeFactor c of Val r \<Rightarrow> if r = 0 then 2.5 else r | _ \<Rightarrow> 2.5)"
    by (cases "easeFactor c") simp_all
  show ?thesis
    unfolding applySpacedRating_def i e
    using assms
    by (auto simp: sm2_interval_def sm2_ease_def round3_def Math_round_def [of "js_mul _ 1000"]
        Let_def max_round_agree)
qed

lemma sm2_interval_positive: "1 \<le> sm2_interval rating i e"
  by (simp add: sm2_interval_def)

text \<open>Rows of the table at the inputs of the examples.\<close>

lemma row_good_start:
  "sm2_interval ''good'' 1 2.5 = 3" "round3 (sm2_ease ''good'' 2.5) = 2.5"
  by (simp_all add: sm2_interval_def sm2_ease_def round3_def spec_round_def js_mul_def
      js_div_def js_add_def js_sub_def double_facts)

lemma row_easy_start:
  "sm2_interval ''easy'' 1 2.5 = 3" "round3 (sm2_ease ''easy'' 2.5) = to_double 2.65"
  by (simp_all add: sm2_interval_def sm2_ease_def round3_def spec_round_def js_mul_def
      js_div_def js_add_def js_sub_def double_facts)

lemma row_again_start:
  "sm2_interval ''again'' 1 2.5 = 1" "round3 (sm2_ease ''again'' 2.5) = to_double 2.3"
  by (simp_all add: sm2_interval_def sm2_ease_def round3_def spec_round_def js_mul_def
      js_div_def js_add_def js_sub_def double_facts)

lemma row_hard_start:
  "sm2_interval ''hard'' 1 2.5 = 1" "round3 (sm2_ease ''hard'' 2.5) = to_double 2.35"
  by (simp_all add: sm2_interval_def sm2_ease_def round3_def spec_round_def js_mul_def
      js_div_def js_add_def js_sub_def double_facts)

lemma row_good_casa:
  "sm2_interval ''good'' 10 2 = 20" "round3 (sm2_ease ''good'' 2) = 2"
  by (simp_all add: sm2_interval_def sm2_ease_def round3_def spec_round_def js_mul_def
      js_div_def js_add_def js_sub_def double_facts)

text \<open>Binary64 arithmetic is not exact arithmetic. A new card rated \<^verbatim>\<open>again\<close>, \<^verbatim>\<open>hard\<close>,
  \<^verbatim>\<open>good\<close>, \<^verbatim>\<open>good\<close>, \<^verbatim>\<open>good\<close>, \<^verbatim>\<open>easy\<close> has interval 25 and ease 2.3. The product of
  these two binary64 numbers is just below 57.5, so the next \<^verbatim>\<open>good\<close> stores interval
  57, where exact arithmetic on 25 and 2.3 gives 57.5 and 58.\<close>

lemma row_good_25:
  "sm2_interval ''good'' 25 (to_double 2.3) = 57"
  "js_mul 25 (to_double 2.3) < 57.5"
  "round3 (sm2_ease ''good'' (to_double 2.3)) = to_double 2.3"
  by (simp_all add: sm2_interval_def sm2_ease_def round3_def spec_round_def js_mul_def
      js_div_def js_add_def js_sub_def double_facts)

lemma seven_ratings:
  assumes "c = foldl (\<lambda>c rating. applySpacedRating utcOffset c rating today) hola
                 [''again'', ''hard'', ''good'', ''good'', ''good'', ''easy'']"
  shows "interval c = Val 25" and "easeFactor c = Val (to_double 2.3)"
    and "interval (applySpacedRating utcOffset c ''good'' today) = Val 57"
proof -
  note evals = sm2_interval_def sm2_ease_def round3_def spec_round_def js_mul_def
    js_div_def js_add_def js_sub_def double_facts Let_def
  have again: "''again'' \<in> {''again'', ''hard'', ''good'', ''easy''}"
    and hard: "''hard'' \<in> {''again'', ''hard'', ''good'', ''easy''}"
    and good: "''good'' \<in> {''again'', ''hard'', ''good'', ''easy''}"
    and easy: "''easy'' \<in> {''again'', ''hard'', ''good'', ''easy''}"
    by simp_all
  define c1 where "c1 = applySpacedRating utcOffset hola ''again'' today"
  define c2 where "c2 = applySpacedRating utcOffset c1 ''hard'' today"
  define c3 where "c3 = applySpacedRating utcOffset c2 ''good'' today"
  define c4 where "c4 = applySpacedRating utcOffset c3 ''good'' today"
  define c5 where "c5 = applySpacedRating utcOffset c4 ''good'' today"
  define c6 where "c6 = applySpacedRating utcOffset c5 ''easy'' today"
  have c: "c = c6"
    by (simp add: assms c1_def c2_def c3_def c4_def c5_def c6_def)
  have s1: "interval c1 = Val 1" "easeFactor c1 = Val (to_double 2.3)"
    unfolding c1_def applySpacedRating_rows [OF again] by (simp_all add: hola_def evals)
  have s2: "interval c2 = Val 1" "easeFactor c2 = Val (to_double 2.15)"
    unfolding c2_def applySpacedRating_rows [OF hard] s1 by (simp_all add: evals)
  have s3: "interval c3 = Val 2" "easeFactor c3 = Val (to_double 2.15)"
    unfolding c3_def applySpacedRating_rows [OF good] s2 by (simp_all add: evals)
  have s4: "interval c4 = Val 4" "easeFactor c4 = Val (to_double 2.15)"
    unfolding c4_def applySpacedRating_rows [OF good] s3 by (simp_all add: evals)
  have s5: "interval c5 = Val 9" "easeFactor c5 = Val (to_double 2.15)"
    unfolding c5_def applySpacedRating_rows [OF good] s4 by (simp_all add: evals)
  have s6: "interval c6 = Val 25" "easeFactor c6 = Val (to_double 2.3)"
    unfolding c6_def applySpacedRating_rows [OF easy] s5 by (simp_all add: evals)
  show "interval c = Val 25" and "easeFactor c = Val (to_double 2.3)"
    using s6 by (simp_all add: c)
  show "interval (applySpacedRating utcOffset c ''good'' today) = Val 57"
    unfolding c applySpacedRating_rows [OF good] s6 by (simp add: evals)
qed

section \<open>The due date in a time zone beyond twelve hours\<close>

text \<open>
  C1 at a card with interval 10 and ease 2, rated \<^verbatim>\<open>good\<close> on day 20000 in a time zone
  thirteen hours ahead of UTC. The step stores interval 20, ease 2 and status \<^verbatim>\<open>SPACED\<close>,
  as the table has it, but the due date day 20019, one day short of today plus the new
  interval: \<^verbatim>\<open>addDays\<close> takes noon of day 20020 in local time, which is 23:00 of day 20019
  in UTC. The same rating in UTC stores day 20020.
\<close>

theorem due_date_one_day_short:
  "applySpacedRating utc_plus_13 casa ''good'' 20000 =
     casa\<lparr>dueDate := Val 20019, interval := Val 20, easeFactor := Val 2,
          sessionStatus := Val ''SPACED''\<rparr>
   \<and> (20019 :: date) \<noteq> 20000 + 20
   \<and> applySpacedRating utc casa ''good'' 20000 =
     casa\<lparr>dueDate := Val 20020, interval := Val 20, easeFactor := Val 2,
          sessionStatus := Val ''SPACED''\<rparr>"
proof -
  have r: "''good'' \<in> {''again'', ''hard'', ''good'', ''easy''}" by simp
  have c: "interval casa = Val 10" "easeFactor casa = Val 2"
    by (simp_all add: casa_def)
  show ?thesis
    unfolding applySpacedRating_rows [OF r] c
    by (simp add: row_good_casa Let_def)
qed

section \<open>The worked example of the scheduling table\<close>

text \<open>C6 as it is worded. A card with interval 1 and ease 2.5 rated \<^verbatim>\<open>easy\<close>: the product
  \<open>1 \<times> 2.5 \<times> 1.3\<close> is 3.25, in binary64 arithmetic too, and is rounded to 3, so the
  stored interval is 3 and not 4.\<close>

theorem easy_interval_counterexample:
  "interval (applySpacedRating utc hola ''easy'' 20000) = Val 3 \<and>
   interval (applySpacedRating utc hola ''easy'' 20000) \<noteq> Val 4"
proof -
  have r: "''easy'' \<in> {''again'', ''hard'', ''good'', ''easy''}" by simp
  have c: "interval hola = Val 1" "easeFactor hola = Val 2.5"
    by (simp_all add: hola_def)
  show ?thesis
    unfolding applySpacedRating_rows [OF r] c
    by (simp add: row_easy_start [simplified] Let_def)
qed

text \<open>
  C6, amended. For a card with interval 1 and ease factor 2.5: rating \<^verbatim>\<open>good\<close> gives
  interval 3 and ease 2.5; rating \<^verbatim>\<open>easy\<close> from the same start gives interval 3 and ease
  2.65; rating \<^verbatim>\<open>again\<close> gives interval 1, ease 2.3 and due date today; the status
  becomes \<^verbatim>\<open>SPACED\<close> and nothing else on the card changes. The due date after \<^verbatim>\<open>good\<close>
  and after \<^verbatim>\<open>easy\<close> is what \<open>addDays\<close> makes of today and 3, and that is today + 3
  where local noon of that day lies in the same UTC day (local time from 11:59 behind
  to 12:00 ahead of UTC); of other time zones nothing is said. The numbers 2.65 and 2.3
  are the binary64 numbers so written.
\<close>

theorem sm2_example:
  assumes "interval c = Val 1" and "easeFactor c = Val 2.5"
  shows "applySpacedRating utcOffset c ''good'' today =
           c\<lparr>dueDate := Val (addDays utcOffset today 3), interval := Val 3,
             easeFactor := Val 2.5, sessionStatus := Val ''SPACED''\<rparr>
       \<and> applySpacedRating utcOffset c ''easy'' today =
           c\<lparr>dueDate := Val (addDays utcOffset today 3), interval := Val 3,
             easeFactor := Val (to_double 2.65), sessionStatus := Val ''SPACED''\<rparr>
       \<and> applySpacedRating utcOffset c ''again'' today =
           c\<lparr>dueDate := Val today, interval := Val 1,
             easeFactor := Val (to_double 2.3), sessionStatus := Val ''SPACED''\<rparr>
       \<and> (- 720 < utcOffset (today + 3) \<and> utcOffset (today + 3) \<le> 720
            \<longrightarrow> addDays utcOffset today 3 = today + 3)"
proof -
  have good: "''good'' \<in> {''again'', ''hard'', ''good'', ''easy''}"
    and easy: "''easy'' \<in> {''again'', ''hard'', ''good'', ''easy''}"
    and again: "''again'' \<in> {''again'', ''hard'', ''good'', ''easy''}"
    by simp_all
  have g: "applySpacedRating utcOffset c ''good'' today =
      c\<lparr>dueDate := Val (addDays utcOffset today 3), interval := Val 3,
        easeFactor := Val 2.5, sessionStatus := Val ''SPACED''\<rparr>"
    unfolding applySpacedRating_rows [OF good] assms
    by (simp add: row_good_start [simplified] Let_def)
  have e: "applySpacedRating utcOffset c ''easy'' today =
      c\<lparr>dueDate := Val (addDays utcOffset today 3), interval := Val 3,
        easeFactor := Val (to_double 2.65), sessionStatus := Val ''SPACED''\<rparr>"
    unfolding applySpacedRating_rows [OF easy] assms
    by (simp add: row_easy_start [simplified] Let_def)
  have a: "applySpacedRating utcOffset c ''again'' today =
      c\<lparr>dueDate := Val today, interval := Val 1,
        easeFactor := Val (to_double 2.3), sessionStatus := Val ''SPACED''\<rparr>"
    unfolding applySpacedRating_rows [OF again] assms
    by (simp add: row_again_start [simplified] Let_def)
  have d: "- 720 < utcOffset (today + 3) \<and> utcOffset (today + 3) \<le> 720
      \<longrightarrow> addDays utcOffset today 3 = today + 3"
    using addDays_same_day [of utcOffset today 3] by blast
  show ?thesis
    using g e a d by (intro conjI)
qed

text \<open>The example card in UTC on day 20000: due on day 20003 after \<^verbatim>\<open>good\<close>.\<close>

theorem sm2_example_witness:
  "interval hola = Val 1 \<and> easeFactor hola = Val 2.5
   \<and> - 720 < utc (20000 + 3) \<and> utc (20000 + 3) \<le> 720
   \<and> dueDate (applySpacedRating utc hola ''good'' 20000) = Val 20003
   \<and> interval (applySpacedRating utc hola ''good'' 20000) = Val 3
   \<and> easeFactor (applySpacedRating utc hola ''easy'' 20000) = Val (to_double 2.65)
   \<and> easeFactor (applySpacedRating utc hola ''again'' 20000) = Val (to_double 2.3)
   \<and> dueDate (applySpacedRating utc hola ''again'' 20000) = Val 20000"
proof -
  have h: "interval hola = Val 1" "easeFactor hola = Val 2.5"
    by (simp_all add: hola_def)
  have z: "- 720 < utc (20000 + 3)" "utc (20000 + 3) \<le> 720"
    by (simp_all add: utc_def)
  from sm2_example [OF h, of utc 20000] z
  have "addDays utc 20000 3 = 20000 + 3" by blast
  with sm2_example [OF h, of utc 20000] h z show ?thesis
    by (simp del: addDays_utc)
qed

section \<open>Day reset\<close>

lemma int_or_Some_zero [simp]: "int_or (Some n) 0 = n"
  by simp

lemma candidates_checkDayReset [simp]:
  "candidates today h (checkDayReset t d) = candidates today h d"
  by (simp add: candidates_def checkDayReset_def)

lemma checkDayReset_idem: "checkDayReset today (checkDayReset today d) = checkDayReset today d"
  by (simp add: checkDayReset_def)

lemma buildQueue_deck [simp]: "deck (buildQueue today rnd s) = checkDayReset today (deck s)"
  by (simp add: buildQueue_def Let_def)

lemma buildQueue_heap [simp]: "heap (buildQueue today rnd s) = heap s"
  by (simp add: buildQueue_def Let_def)

lemma buildQueue_reset_first:
  "buildQueue today rnd (s\<lparr>deck := checkDayReset today (deck s)\<rparr>) = buildQueue today rnd s"
  by (simp add: buildQueue_def Let_def checkDayReset_idem)

text \<open>
  C7. If \<open>lastSessionDate\<close> differs from today, \<open>checkDayReset\<close> sets it to today and
  sets \<open>cardsReviewedToday\<close> and \<open>sessionExtension\<close> to 0; if it equals today the deck is
  unchanged, so a second call on the same day changes nothing. \<open>buildQueue\<close> starts with
  it: the deck it leaves is the reset deck, and the queue is cut and selected from the
  reset deck (building from the already reset deck gives the same state).
\<close>

theorem checkDayReset_spec:
  "(lastSessionDate d \<noteq> Some today \<longrightarrow>
      checkDayReset today d =
        d\<lparr>lastSessionDate := Some today, cardsReviewedToday := Some 0,
          sessionExtension := Some 0\<rparr>)
   \<and> (lastSessionDate d = Some today \<longrightarrow> checkDayReset today d = d)
   \<and> checkDayReset today (checkDayReset today d) = checkDayReset today d
   \<and> deck (buildQueue today rnd s) = checkDayReset today (deck s)
   \<and> queue (buildQueue today rnd s) =
       take (nat (remaining (checkDayReset today (deck s))))
         (shuffle rnd (candidates today (heap s) (checkDayReset today (deck s))))
   \<and> buildQueue today rnd (s\<lparr>deck := checkDayReset today (deck s)\<rparr>) = buildQueue today rnd s"
proof -
  have fresh_day: "lastSessionDate d \<noteq> Some today \<longrightarrow>
      checkDayReset today d =
        d\<lparr>lastSessionDate := Some today, cardsReviewedToday := Some 0,
          sessionExtension := Some 0\<rparr>"
    by (simp add: checkDayReset_def)
  have same_day: "lastSessionDate d = Some today \<longrightarrow> checkDayReset today d = d"
    by (simp add: checkDayReset_def)
  have q: "queue (buildQueue today rnd s) =
       take (nat (remaining (checkDayReset today (deck s))))
         (shuffle rnd (candidates today (heap s) (checkDayReset today (deck s))))"
    by (simp add: buildQueue_def Let_def)
  show ?thesis
    using fresh_day same_day q checkDayReset_idem [of today d] buildQueue_reset_first [of today rnd s]
    by simp
qed

text \<open>The day-boundary example: last session the day before, 5 cards reviewed, extension
  3. After \<open>buildQueue\<close> both counters are 0, and the queue holds 2 cards, the daily
  limit, which it could not if the old count of 5 had been used.\<close>

theorem checkDayReset_spec_witness:
  "lastSessionDate yesterday_deck \<noteq> Some 20000
   \<and> cardsReviewedToday (deck (buildQueue 20000 halves (fresh three_cards yesterday_deck))) = Some 0
   \<and> sessionExtension (deck (buildQueue 20000 halves (fresh three_cards yesterday_deck))) = Some 0
   \<and> lastSessionDate (deck (buildQueue 20000 halves (fresh three_cards yesterday_deck))) = Some 20000
   \<and> queue (buildQueue 20000 halves (fresh three_cards yesterday_deck)) = [0, 2]
   \<and> lastSessionDate (checkDayReset 20000 yesterday_deck) = Some 20000
   \<and> checkDayReset 20000 (checkDayReset 20000 yesterday_deck) = checkDayReset 20000 yesterday_deck"
proof -
  have q: "queue (buildQueue 20000 halves (fresh three_cards yesterday_deck)) = [0, 2]"
    by code_simp
  show ?thesis
    using q checkDayReset_spec [of yesterday_deck 20000 halves "fresh three_cards yesterday_deck"]
    by (simp add: yesterday_deck_def fresh_def checkDayReset_def)
qed

section \<open>Length of the queue\<close>

lemma length_shuffle_from [simp]: "length (shuffle_from pick i xs) = length xs"
  by (induction i arbitrary: xs) simp_all

lemma length_shuffle [simp]: "length (shuffle rnd xs) = length xs"
  by (simp add: shuffle_def)

lemma length_queue_buildQueue:
  "length (queue (buildQueue today rnd s)) =
     min (length (candidates today (heap s) (deck s)))
         (nat (remaining (checkDayReset today (deck s))))"
  by (simp add: buildQueue_def Let_def)

lemma buildQueue_cursor [simp]:
  "currentIndex (buildQueue today rnd s) = 0" "rewindBackup (buildQueue today rnd s) = None"
  by (simp_all add: buildQueue_def Let_def)

text \<open>
  C3. For a deck with a positive \<open>dailyLimit\<close> \<open>l\<close> and non-negative \<open>sessionExtension\<close>
  and \<open>cardsReviewedToday\<close>, let \<open>e\<close> and \<open>r\<close> be the two counters after the day reset
  that \<open>buildQueue\<close> starts with (both 0 on a new day, the stored ones otherwise). The
  queue has at most \<open>max 0 (l + e - r)\<close> entries; when that number is 0, or when no card
  is eligible, the queue is empty, the session is complete at once and there is no
  current card.
\<close>

theorem buildQueue_length_bound:
  assumes "dailyLimit (deck s) = Some l" and "0 < l"
    and "sessionExtension (deck s) = Some e0" and "0 \<le> e0"
    and "cardsReviewedToday (deck s) = Some r0" and "0 \<le> r0"
  shows "\<exists>e r. sessionExtension (deck (buildQueue today rnd s)) = Some e
           \<and> cardsReviewedToday (deck (buildQueue today rnd s)) = Some r
           \<and> dailyLimit (deck (buildQueue today rnd s)) = Some l
           \<and> (e, r) = (if lastSessionDate (deck s) = Some today then (e0, r0) else (0, 0))
           \<and> int (length (queue (buildQueue today rnd s))) \<le> max 0 (l + e - r)
           \<and> (max 0 (l + e - r) = 0 \<or> candidates today (heap s) (deck s) = [] \<longrightarrow>
                queue (buildQueue today rnd s) = []
                \<and> isComplete (buildQueue today rnd s)
                \<and> getCurrentCard (buildQueue today rnd s) = None)"
proof -
  define d where "d = checkDayReset today (deck s)"
  define e where "e = (if lastSessionDate (deck s) = Some today then e0 else 0)"
  define r where "r = (if lastSessionDate (deck s) = Some today then r0 else 0)"
  have fields: "sessionExtension d = Some e" "cardsReviewedToday d = Some r"
    "dailyLimit d = Some l"
    using assms by (simp_all add: d_def e_def r_def checkDayReset_def)
  have rem: "remaining d = max 0 (l + e - r)"
    using fields \<open>0 < l\<close> by (simp add: remaining_def effectiveLimit_def)
  have len: "length (queue (buildQueue today rnd s)) =
      min (length (candidates today (heap s) (deck s))) (nat (max 0 (l + e - r)))"
    using rem by (simp add: length_queue_buildQueue d_def)
  have bound: "int (length (queue (buildQueue today rnd s))) \<le> max 0 (l + e - r)"
    unfolding len by simp
  have empty: "queue (buildQueue today rnd s) = []"
    if "max 0 (l + e - r) = 0 \<or> candidates today (heap s) (deck s) = []"
    using that len by auto
  have complete: "isComplete (buildQueue today rnd s) \<and> getCurrentCard (buildQueue today rnd s) = None"
    if "queue (buildQueue today rnd s) = []"
    using that by (simp add: isComplete_def getCurrentCard_def)
  have pair: "(e, r) = (if lastSessionDate (deck s) = Some today then (e0, r0) else (0, 0))"
    by (simp add: e_def r_def)
  have fields': "sessionExtension (deck (buildQueue today rnd s)) = Some e"
    "cardsReviewedToday (deck (buildQueue today rnd s)) = Some r"
    "dailyLimit (deck (buildQueue today rnd s)) = Some l"
    using fields by (simp_all add: d_def)
  show ?thesis
  proof (rule exI [of _ e], rule exI [of _ r], intro conjI impI)
    assume "max 0 (l + e - r) = 0 \<or> candidates today (heap s) (deck s) = []"
    then have "queue (buildQueue today rnd s) = []" by (rule empty)
    then show "queue (buildQueue today rnd s) = []"
      and "isComplete (buildQueue today rnd s)"
      and "getCurrentCard (buildQueue today rnd s) = None"
      using complete by simp_all
  qed (use fields' bound pair in simp_all)
qed

text \<open>A deck used earlier on day 20000 with limit 2, extension 1 and 3 cards reviewed:
  nothing remains, the queue is empty and the session complete.\<close>

theorem buildQueue_length_bound_witness:
  "dailyLimit used_up_deck = Some 2 \<and> (0::int) < 2
   \<and> sessionExtension used_up_deck = Some 1 \<and> cardsReviewedToday used_up_deck = Some 3
   \<and> queue (buildQueue 20000 halves (fresh three_cards used_up_deck)) = []
   \<and> isComplete (buildQueue 20000 halves (fresh three_cards used_up_deck))
   \<and> length (queue (buildQueue 20000 halves (fresh three_cards yesterday_deck))) = 2"
proof -
  have h: "dailyLimit (deck (fresh three_cards used_up_deck)) = Some 2" "(0::int) < 2"
    "sessionExtension (deck (fresh three_cards used_up_deck)) = Some 1" "(0::int) \<le> 1"
    "cardsReviewedToday (deck (fresh three_cards used_up_deck)) = Some 3" "(0::int) \<le> 3"
    by (simp_all add: fresh_def used_up_deck_def)
  have today: "lastSessionDate (deck (fresh three_cards used_up_deck)) = Some 20000"
    by (simp add: fresh_def used_up_deck_def)
  have q: "length (queue (buildQueue 20000 halves (fresh three_cards yesterday_deck))) = 2"
    by code_simp
  from buildQueue_length_bound [OF h, of 20000 halves] today q h
  show ?thesis by (auto simp: fresh_def)
qed

section \<open>The default daily limit\<close>

text \<open>
  C10. When \<open>dailyLimit\<close> is missing, \<^verbatim>\<open>null\<close> or 0, \<open>buildQueue\<close> computes the effective
  limit as \<open>5 + sessionExtension\<close>. The queue then holds as many cards as there are
  candidates, up to \<open>5 + sessionExtension - cardsReviewedToday\<close> (counters after the day
  reset, a negative difference counting as 0): the deck is neither rejected nor treated
  as having limit 0.
\<close>

theorem buildQueue_default_limit:
  assumes "dailyLimit (deck s) = None \<or> dailyLimit (deck s) = Some 0"
  shows "effectiveLimit (deck (buildQueue today rnd s)) =
           5 + int_or (sessionExtension (deck (buildQueue today rnd s))) 0
       \<and> length (queue (buildQueue today rnd s)) =
           min (length (candidates today (heap s) (deck s)))
             (nat (max 0 (5 + int_or (sessionExtension (deck (buildQueue today rnd s))) 0
                            - int_or (cardsReviewedToday (deck (buildQueue today rnd s))) 0)))"
proof -
  define d where "d = checkDayReset today (deck s)"
  have "dailyLimit d = None \<or> dailyLimit d = Some 0"
    using assms by (auto simp: d_def checkDayReset_def)
  then have five: "int_or (dailyLimit d) 5 = 5"
    by auto
  have lim: "effectiveLimit d = 5 + int_or (sessionExtension d) 0"
    unfolding effectiveLimit_def five ..
  have rem: "remaining d =
      max 0 (5 + int_or (sessionExtension d) 0 - int_or (cardsReviewedToday d) 0)"
    unfolding remaining_def lim ..
  show ?thesis
    unfolding buildQueue_deck length_queue_buildQueue d_def [symmetric] rem [symmetric]
    using lim by simp
qed

text \<open>No limit, extension 2, one card reviewed today, seven candidates: the queue has
  \<open>5 + 2 - 1 = 6\<close> entries.\<close>

theorem buildQueue_default_limit_witness:
  "dailyLimit (deck (fresh three_cards no_limit_deck)) = None
   \<and> effectiveLimit (deck (buildQueue 20000 halves (fresh three_cards no_limit_deck))) = 7
   \<and> length (queue (buildQueue 20000 halves (fresh three_cards no_limit_deck))) = 6"
proof -
  have h: "dailyLimit (deck (fresh three_cards no_limit_deck)) = None"
    by (simp add: fresh_def no_limit_deck_def)
  have c: "length (candidates 20000 (heap (fresh three_cards no_limit_deck))
             (deck (fresh three_cards no_limit_deck))) = 7"
    by code_simp
  have d: "deck (buildQueue 20000 halves (fresh three_cards no_limit_deck)) = no_limit_deck"
    by (simp add: fresh_def no_limit_deck_def checkDayReset_def)
  from buildQueue_default_limit [OF disjI1 [OF h], of 20000 halves]
  show ?thesis
    unfolding c d using h by (simp add: no_limit_deck_def)
qed

section \<open>The shuffle permutes, the queue holds eligible cards\<close>

lemma draw_le:
  assumes "0 \<le> rnd (n - 1 - i)" and "rnd (n - 1 - i) < 1"
  shows "draw rnd n i \<le> i"
proof -
  have "rnd (n - 1 - i) * of_nat (i + 1) < 1 * of_nat (i + 1)"
    using assms(2) by (intro mult_strict_right_mono) simp_all
  then have "\<lfloor>rnd (n - 1 - i) * of_nat (i + 1)\<rfloor> < int (i + 1)"
    by (simp add: floor_less_iff)
  then show ?thesis by (simp add: draw_def)
qed

lemma mset_shuffle_from:
  "i < length xs \<Longrightarrow> (\<And>k. k \<le> i \<Longrightarrow> pick k \<le> k)
    \<Longrightarrow> mset (shuffle_from pick i xs) = mset xs"
proof (induction i arbitrary: xs)
  case 0
  then show ?case by simp
next
  case (Suc i)
  have j: "pick (Suc i) < length xs"
    using Suc.prems(1) Suc.prems(2) [of "Suc i"] by simp
  have swap: "mset (xs[Suc i := xs ! pick (Suc i), pick (Suc i) := xs ! Suc i]) = mset xs"
    using mset_swap [of "pick (Suc i)" xs "Suc i"] j Suc.prems(1) by simp
  have "mset (shuffle_from pick i (xs[Suc i := xs ! pick (Suc i), pick (Suc i) := xs ! Suc i]))
      = mset (xs[Suc i := xs ! pick (Suc i), pick (Suc i) := xs ! Suc i])"
    using Suc.prems by (intro Suc.IH) simp_all
  then show ?case using swap by simp
qed

lemma mset_shuffle:
  assumes "\<forall>k. 0 \<le> rnd k \<and> rnd k < 1"
  shows "mset (shuffle rnd xs) = mset xs"
proof (cases xs)
  case Nil
  then show ?thesis by (simp add: shuffle_def)
next
  case (Cons x xs')
  then have "length xs - 1 < length xs" by simp
  then show ?thesis
    unfolding shuffle_def using assms by (intro mset_shuffle_from draw_le) simp_all
qed

lemma set_shuffle:
  "\<forall>k. 0 \<le> rnd k \<and> rnd k < 1 \<Longrightarrow> set (shuffle rnd xs) = set xs"
  using mset_shuffle [of rnd xs] by (metis set_mset_mset)

text \<open>
  C4. With a random source that returns numbers in \<open>[0, 1)\<close>, every entry of the queue
  built by \<open>buildQueue\<close> is a card of the deck that passes the filter of the deck's mode:
  in spaced mode its \<open>dueDate\<close> is missing, \<^verbatim>\<open>null\<close> or not after today, in any other
  mode its \<open>sessionStatus\<close> is not \<^verbatim>\<open>FINISHED\<close>. The cards themselves are not changed
  by the build. In simple mode a card with status \<^verbatim>\<open>SPACED\<close> is a candidate.
\<close>

theorem buildQueue_eligible:
  assumes "\<forall>k. 0 \<le> rnd k \<and> rnd k < 1"
  shows "(\<forall>r \<in> set (queue (buildQueue today rnd s)).
            r \<in> set (cards (deck s)) \<and>
            (if learningMode (deck s) = ''spaced''
             then dueDate (heap s r) = Absent \<or> dueDate (heap s r) = Null
                  \<or> (\<exists>d. dueDate (heap s r) = Val d \<and> d \<le> today)
             else sessionStatus (heap s r) \<noteq> Val ''FINISHED''))
       \<and> heap (buildQueue today rnd s) = heap s
       \<and> learningMode (deck (buildQueue today rnd s)) = learningMode (deck s)
       \<and> (\<forall>r \<in> set (cards (deck s)).
            learningMode (deck s) \<noteq> ''spaced'' \<and> sessionStatus (heap s r) = Val ''SPACED''
            \<longrightarrow> r \<in> set (candidates today (heap s) (deck s)))"
proof -
  have sub: "set (queue (buildQueue today rnd s)) \<subseteq> set (candidates today (heap s) (deck s))"
    using set_shuffle [OF assms] set_take_subset
    by (fastforce simp: buildQueue_def Let_def)
  have cand: "r \<in> set (cards (deck s)) \<and>
       (if learningMode (deck s) = ''spaced''
        then dueDate (heap s r) = Absent \<or> dueDate (heap s r) = Null
             \<or> (\<exists>d. dueDate (heap s r) = Val d \<and> d \<le> today)
        else sessionStatus (heap s r) \<noteq> Val ''FINISHED'')"
    if "r \<in> set (candidates today (heap s) (deck s))" for r
    using that by (auto simp: candidates_def notFinished_def split: if_splits jsprop.splits)
  have mode: "learningMode (deck (buildQueue today rnd s)) = learningMode (deck s)"
    by (simp add: checkDayReset_def)
  have spaced_ok: "r \<in> set (candidates today (heap s) (deck s))"
    if "r \<in> set (cards (deck s))" "learningMode (deck s) \<noteq> ''spaced''"
      "sessionStatus (heap s r) = Val ''SPACED''" for r
    using that by (simp add: candidates_def notFinished_def)
  have inq: "r \<in> set (cards (deck s)) \<and>
       (if learningMode (deck s) = ''spaced''
        then dueDate (heap s r) = Absent \<or> dueDate (heap s r) = Null
             \<or> (\<exists>d. dueDate (heap s r) = Val d \<and> d \<le> today)
        else sessionStatus (heap s r) \<noteq> Val ''FINISHED'')"
    if "r \<in> set (queue (buildQueue today rnd s))" for r
    using that sub by (intro cand) blast
  show ?thesis
  proof (intro conjI ballI impI)
    show "heap (buildQueue today rnd s) = heap s" by simp
    show "learningMode (deck (buildQueue today rnd s)) = learningMode (deck s)" by (rule mode)
  qed (use inq spaced_ok in blast)+
qed

text \<open>In the spaced example deck the queue holds card 0 (never scheduled) and card 2
  (due ten days ago), not card 1 (due in five days).\<close>

theorem buildQueue_eligible_witness:
  "(\<forall>k. 0 \<le> halves k \<and> halves k < 1)
   \<and> queue (buildQueue 20000 halves (fresh spaced_heap spaced_deck)) = [0, 2]
   \<and> dueDate (spaced_heap 0) = Null
   \<and> (\<exists>d. dueDate (spaced_heap 2) = Val d \<and> d \<le> 20000)
   \<and> dueDate (spaced_heap 1) = Val 20005"
proof -
  have h: "\<forall>k. 0 \<le> halves k \<and> halves k < 1"
    by (simp add: halves_def)
  have q: "queue (buildQueue 20000 halves (fresh spaced_heap spaced_deck)) = [0, 2]"
    by code_simp
  have "learningMode (deck (fresh spaced_heap spaced_deck)) = ''spaced''"
    by (simp add: fresh_def spaced_deck_def)
  with buildQueue_eligible [OF h, of 20000 "fresh spaced_heap spaced_deck"]
  have "\<exists>d. dueDate (spaced_heap 2) = Val d \<and> d \<le> 20000"
    unfolding q by (simp add: fresh_def spaced_heap_def hola_def)
  then show ?thesis
    using h q by (simp add: spaced_heap_def hola_def adios_def)
qed

section \<open>Rating a stale queue entry\<close>

text \<open>
  C8. When there is a current queue entry and no card of the deck is the same object or
  has the same word and the same translation, \<open>rateCard\<close> returns the state with the
  cursor advanced by one and nothing else changed: heap, deck (with its counters),
  queue and pending backup are the old ones, whatever the rating, the day and the time
  zone.
\<close>

theorem rateCard_no_match:
  assumes "currentIndex s < length (queue s)"
    and "\<forall>c \<in> set (cards (deck s)).
           c \<noteq> queue s ! currentIndex s \<and>
           \<not> (word (heap s c) = word (heap s (queue s ! currentIndex s)) \<and>
              translation (heap s c) = translation (heap s (queue s ! currentIndex s)))"
  shows "rateCard utcOffset today rating s = s\<lparr>currentIndex := currentIndex s + 1\<rparr>"
proof -
  have "find (matches (heap s) (queue s ! currentIndex s)) (cards (deck s)) = None"
    using assms(2) by (simp add: find_None_iff matches_def)
  then show ?thesis
    using assms(1) by (simp add: rateCard_def)
qed

theorem rateCard_no_match_witness:
  "currentIndex stale_state < length (queue stale_state)
   \<and> rateCard utc 20000 ''remembered'' stale_state = stale_state\<lparr>currentIndex := 1\<rparr>
   \<and> cardsReviewedToday (deck (rateCard utc 20000 ''remembered'' stale_state)) = Some 0"
proof -
  have h1: "currentIndex stale_state < length (queue stale_state)"
    by (simp add: stale_state_def)
  have h2: "\<forall>c \<in> set (cards (deck stale_state)).
           c \<noteq> queue stale_state ! currentIndex stale_state \<and>
           \<not> (word (heap stale_state c)
                = word (heap stale_state (queue stale_state ! currentIndex stale_state)) \<and>
              translation (heap stale_state c)
                = translation (heap stale_state (queue stale_state ! currentIndex stale_state)))"
    by (simp add: stale_state_def three_cards_def hola_def adios_def gracias_def)
  from rateCard_no_match [OF h1 h2, of utc 20000 "''remembered''"] h1
  show ?thesis by (simp add: stale_state_def)
qed

section \<open>Rating, then rewind\<close>

text \<open>What a rating with a matching deck card does to the cards: in spaced mode the
  matched card takes the SM-2 step, in any other mode \<^verbatim>\<open>remembered\<close> marks it finished
  and every other rating leaves it as it is; no other card changes.\<close>

lemma rateCard_heap:
  assumes "currentIndex s < length (queue s)"
    and "find (matches (heap s) (queue s ! currentIndex s)) (cards (deck s)) = Some r"
  shows "heap (rateCard utcOffset today rating s) =
    (heap s)(r :=
      (if learningMode (deck s) = ''spaced''
       then applySpacedRating utcOffset (heap s r) rating today
       else if rating = ''remembered'' then (heap s r)\<lparr>sessionStatus := Val ''FINISHED''\<rparr>
       else heap s r))"
  using assms by (simp add: rateCard_def)

lemma assign_prop_same [simp]: "assign_prop p p = p"
  by (cases p) simp_all

lemma assign_prop_present: "p \<noteq> Absent \<Longrightarrow> assign_prop t p = p"
  by (cases p) simp_all

text \<open>When the rated card owns the four properties a rating may write and the deck owns
  its counter, rating and then rewinding gives back the heap, the deck and the cursor;
  the queue slot holds the deck's card and no backup is pending.\<close>

lemma rate_then_rewind:
  assumes cur: "currentIndex s < length (queue s)"
    and found: "find (matches (heap s) (queue s ! currentIndex s)) (cards (deck s)) = Some r"
    and owned: "sessionStatus (heap s r) \<noteq> Absent" "dueDate (heap s r) \<noteq> Absent"
      "interval (heap s r) \<noteq> Absent" "easeFactor (heap s r) \<noteq> Absent"
    and counter: "cardsReviewedToday (deck s) \<noteq> None"
  shows "rewind (rateCard utcOffset today rating s) =
           (s\<lparr>queue := (queue s)[currentIndex s := r], rewindBackup := None\<rparr>, True)"
proof -
  have restore: "Object_assign c' (heap s r) = heap s r"
    if "word c' = word (heap s r)" "translation c' = translation (heap s r)" for c'
    using that owned by (simp add: Object_assign_def assign_prop_present)
  have spaced:
    "Object_assign (applySpacedRating utcOffset (heap s r) rating today) (heap s r) = heap s r"
    by (rule restore) (simp_all add: applySpacedRating_def Let_def split: prod.splits if_splits)
  have simple: "Object_assign ((heap s r)\<lparr>sessionStatus := Val ''FINISHED''\<rparr>) (heap s r) = heap s r"
    by (rule restore) simp_all
  have same: "Object_assign (heap s r) (heap s r) = heap s r"
    by (rule restore) simp_all
  obtain n where n: "cardsReviewedToday (deck s) = Some n"
    using counter by blast
  show ?thesis
    using cur found n spaced simple same
    by (simp add: rewind_def rateCard_def fun_upd_idem)
qed

text \<open>
  C2 at a card that lacks \<^verbatim>\<open>interval\<close> and \<^verbatim>\<open>easeFactor\<close>, in the session
  that \<open>buildQueue\<close> builds for its deck. The rating \<^verbatim>\<open>good\<close> creates
  both properties; \<open>rewind\<close> returns true, restores the cursor and the counter and leaves
  no backup, but the snapshot does not own the two properties, so \<^verbatim>\<open>Object.assign\<close>
  leaves them on the card: after the rewind the card has interval 3 and ease 2.5, where
  before the rating it had neither.
\<close>

theorem rewind_keeps_created_properties:
  "buildQueue 20000 halves (fresh (\<lambda>r. old_card) (deck old_state)) = old_state
   \<and> snd (rewind (rateCard utcOffset 20000 ''good'' old_state))
   \<and> \<not> canRewind (fst (rewind (rateCard utcOffset 20000 ''good'' old_state)))
   \<and> currentIndex (fst (rewind (rateCard utcOffset 20000 ''good'' old_state))) = currentIndex old_state
   \<and> cardsReviewedToday (deck (fst (rewind (rateCard utcOffset 20000 ''good'' old_state))))
       = cardsReviewedToday (deck old_state)
   \<and> heap old_state 0 = old_card
   \<and> heap (fst (rewind (rateCard utcOffset 20000 ''good'' old_state))) 0
       = old_card\<lparr>interval := Val 3, easeFactor := Val 2.5\<rparr>
   \<and> heap (fst (rewind (rateCard utcOffset 20000 ''good'' old_state))) 0 \<noteq> heap old_state 0"
proof -
  have built: "buildQueue 20000 halves (fresh (\<lambda>r. old_card) (deck old_state)) = old_state"
    by (simp add: buildQueue_def fresh_def old_state_def old_card_def checkDayReset_def
        remaining_def effectiveLimit_def candidates_def shuffle_def Let_def)
  have good: "''good'' \<in> {''again'', ''hard'', ''good'', ''easy''}" by simp
  have rated: "applySpacedRating utcOffset old_card ''good'' 20000 =
      old_card\<lparr>dueDate := Val (addDays utcOffset 20000 3), interval := Val 3,
               easeFactor := Val 2.5, sessionStatus := Val ''SPACED''\<rparr>"
    unfolding applySpacedRating_rows [OF good]
    by (simp add: old_card_def row_good_start [simplified] Let_def)
  have state: "rateCard utcOffset 20000 ''good'' old_state =
      old_state\<lparr>heap := (\<lambda>r. old_card)(0 := applySpacedRating utcOffset old_card ''good'' 20000),
                deck := (deck old_state)\<lparr>cardsReviewedToday := Some 1\<rparr>,
                currentIndex := 1,
                rewindBackup := Some \<lparr>index = 0, cardSnapshot = old_card, deckCardRef = 0,
                                      backupReviewedToday = 0\<rparr>\<rparr>"
    by (simp add: rateCard_def old_state_def matches_def)
  show ?thesis
    unfolding built state rated
    by (simp add: rewind_def old_state_def old_card_def canRewind_def Object_assign_def)
qed

section \<open>The daily cap is an invariant\<close>

lemma session_inv_fresh:
  assumes "dailyLimit d = Some l" and "0 < l"
    and "int_or (cardsReviewedToday d) 0 \<le> l + int_or (sessionExtension d) 0"
  shows "session_inv l (fresh h d)"
  using assms by (simp add: session_inv_def fresh_def reviewed_def extension_def)

lemma session_inv_buildQueue_aux:
  assumes lim: "dailyLimit (deck s) = Some l" "0 < l"
    and cap: "lastSessionDate (deck s) = Some today \<longrightarrow> reviewed s \<le> l + extension s"
  shows "session_inv l (buildQueue today rnd s)"
proof -
  define d where "d = checkDayReset today (deck s)"
  have dl: "dailyLimit d = Some l"
    using lim by (simp add: d_def checkDayReset_def)
  have le: "int_or (cardsReviewedToday d) 0 \<le> l + int_or (sessionExtension d) 0"
    using cap lim(2) by (auto simp: d_def checkDayReset_def reviewed_def extension_def)
  have rem: "remaining d = l + int_or (sessionExtension d) 0 - int_or (cardsReviewedToday d) 0"
    using dl lim(2) le by (simp add: remaining_def effectiveLimit_def)
  have "int (length (queue (buildQueue today rnd s))) \<le> remaining d"
    unfolding length_queue_buildQueue d_def [symmetric] using rem le by simp
  then show ?thesis
    using dl lim(2) rem
    by (simp add: session_inv_def reviewed_def extension_def d_def)
qed

lemma session_inv_le: "session_inv l s \<Longrightarrow> reviewed s \<le> l + extension s"
  by (simp add: session_inv_def)

lemma session_inv_buildQueue:
  "session_inv l s \<Longrightarrow> session_inv l (buildQueue today rnd s)"
  by (rule session_inv_buildQueue_aux) (simp_all add: session_inv_def)

lemma session_inv_extendSession:
  assumes "session_inv l s"
  shows "session_inv l (extendSession today rnd amount s)"
  unfolding extendSession_def
proof (rule session_inv_buildQueue_aux)
  let ?s = "s\<lparr>deck := (deck s)\<lparr>sessionExtension :=
              Some (int_or (sessionExtension (deck s)) 0 + max 1 amount)\<rparr>\<rparr>"
  show "dailyLimit (deck ?s) = Some l" "0 < l"
    using assms by (simp_all add: session_inv_def)
  have "reviewed ?s = reviewed s" "extension s \<le> extension ?s"
    by (simp_all add: reviewed_def extension_def)
  then show "lastSessionDate (deck ?s) = Some today \<longrightarrow> reviewed ?s \<le> l + extension ?s"
    using session_inv_le [OF assms] by simp
qed

lemma session_inv_rateCard:
  assumes "session_inv l s"
  shows "session_inv l (rateCard utcOffset today rating s)"
proof (cases "currentIndex s \<ge> length (queue s)")
  case True
  then show ?thesis using assms by (simp add: rateCard_def)
next
  case False
  show ?thesis
  proof (cases "find (matches (heap s) (queue s ! currentIndex s)) (cards (deck s))")
    case None
    then show ?thesis
      using assms False
      by (auto simp: rateCard_def session_inv_def reviewed_def extension_def
          split: option.splits)
  next
    case (Some r)
    then show ?thesis
      using assms False
      by (auto simp: rateCard_def session_inv_def reviewed_def extension_def)
  qed
qed

lemma session_inv_rewind:
  assumes "session_inv l s"
  shows "session_inv l (fst (rewind s))"
proof (cases "rewindBackup s")
  case None
  then show ?thesis using assms by (simp add: rewind_def)
next
  case (Some b)
  then show ?thesis
    using assms
    by (auto simp: rewind_def session_inv_def reviewed_def extension_def)
qed

lemma session_inv_apply_operation:
  "session_inv l s \<Longrightarrow> session_inv l (apply_operation x s)"
  by (cases x)
    (simp_all add: session_inv_buildQueue session_inv_rateCard session_inv_rewind
      session_inv_extendSession)

lemma session_inv_run: "session_inv l s \<Longrightarrow> session_inv l (run xs s)"
  by (induction xs arbitrary: s) (simp_all add: session_inv_apply_operation)

text \<open>The index of a pending backup is a position of the queue, in every state the
  operations reach from one where this holds (the freshly loaded module has no backup).
  So the assignment \<^verbatim>\<open>queue[index] = deckCardRef\<close> of \<open>rewind\<close> never extends the array.\<close>

lemma backup_index_step:
  assumes "\<forall>b. rewindBackup s = Some b \<longrightarrow> index b < length (queue s)"
  shows "\<forall>b. rewindBackup (apply_operation x s) = Some b
           \<longrightarrow> index b < length (queue (apply_operation x s))"
proof (cases x)
  case (BuildQueue today rnd)
  then show ?thesis by simp
next
  case (RateCard utcOffset today rating)
  then show ?thesis
    using assms by (auto simp: rateCard_def split: option.splits)
next
  case Rewind
  then show ?thesis
    using assms by (auto simp: rewind_def split: option.splits)
next
  case (ExtendSession today rnd amount)
  then show ?thesis by (simp add: extendSession_def)
qed

lemma backup_index_in_queue:
  "\<forall>b. rewindBackup s = Some b \<longrightarrow> index b < length (queue s)
    \<Longrightarrow> \<forall>b. rewindBackup (run xs s) = Some b \<longrightarrow> index b < length (queue (run xs s))"
proof (induction xs arbitrary: s)
  case Nil
  then show ?case by simp
next
  case (Cons x xs)
  show ?case
    using Cons.IH [OF backup_index_step [OF Cons.prems, of x]] by simp
qed

text \<open>
  C5. Take a deck with a positive \<open>dailyLimit\<close> \<open>l\<close> whose counters satisfy
  \<open>cardsReviewedToday \<le> l + sessionExtension\<close> (a missing counter reading as 0), and the
  module as it is loaded: empty queue, cursor 0, no backup. After any sequence of
  \<open>buildQueue\<close>, \<open>rateCard\<close>, \<open>rewind\<close> and \<open>extendSession\<close> on that deck, with any days,
  time zones, random sources, ratings and amounts, the limit is still \<open>l\<close> and
  \<open>cardsReviewedToday \<le> l + sessionExtension\<close> holds; indeed the count plus the queue
  slots still ahead of the cursor is at most \<open>l + sessionExtension\<close>.
\<close>

theorem reviewed_within_limit:
  assumes "dailyLimit d = Some l" and "0 < l"
    and "int_or (cardsReviewedToday d) 0 \<le> l + int_or (sessionExtension d) 0"
  shows "dailyLimit (deck (run xs (fresh h d))) = Some l
       \<and> int_or (cardsReviewedToday (deck (run xs (fresh h d)))) 0
           \<le> l + int_or (sessionExtension (deck (run xs (fresh h d)))) 0
       \<and> int_or (cardsReviewedToday (deck (run xs (fresh h d)))) 0
           + int (length (queue (run xs (fresh h d))) - currentIndex (run xs (fresh h d)))
           \<le> l + int_or (sessionExtension (deck (run xs (fresh h d)))) 0"
proof -
  have "session_inv l (run xs (fresh h d))"
    using assms by (intro session_inv_run session_inv_fresh)
  then show ?thesis
    by (auto simp: session_inv_def reviewed_def extension_def)
qed

text \<open>The example session: limit 2, two cards rated (one rating undone and repeated), a
  rating on the finished queue that does nothing, an extension by 1 and two more
  ratings, of which only the first has a queue slot. The count ends at 3, the
  allowance at \<open>2 + 1\<close>.\<close>

theorem reviewed_within_limit_witness:
  "dailyLimit limit2_deck = Some 2 \<and> (0::int) < 2
   \<and> int_or (cardsReviewedToday limit2_deck) 0 \<le> 2 + int_or (sessionExtension limit2_deck) 0
   \<and> cardsReviewedToday (deck (run example_session (fresh three_cards limit2_deck))) = Some 3
   \<and> sessionExtension (deck (run example_session (fresh three_cards limit2_deck))) = Some 1
   \<and> int_or (cardsReviewedToday (deck (run example_session (fresh three_cards limit2_deck)))) 0
       \<le> 2 + int_or (sessionExtension (deck (run example_session (fresh three_cards limit2_deck)))) 0"
proof -
  have h: "dailyLimit limit2_deck = Some 2" "(0::int) < 2"
    "int_or (cardsReviewedToday limit2_deck) 0 \<le> 2 + int_or (sessionExtension limit2_deck) 0"
    by (simp_all add: limit2_deck_def)
  have r: "cardsReviewedToday (deck (run example_session (fresh three_cards limit2_deck))) = Some 3"
    by code_simp
  have e: "sessionExtension (deck (run example_session (fresh three_cards limit2_deck))) = Some 1"
    by code_simp
  from reviewed_within_limit [OF h, of example_session three_cards] h r e
  show ?thesis by simp
qed

section \<open>The shuffle is unbiased\<close>

lemma shuffle_from_cong:
  "(\<And>k. 1 \<le> k \<Longrightarrow> k \<le> i \<Longrightarrow> p k = q k) \<Longrightarrow> shuffle_from p i xs = shuffle_from q i xs"
  by (induction i arbitrary: xs) simp_all

lemma shuffle_from_above:
  "(\<And>k. 1 \<le> k \<Longrightarrow> k \<le> i \<Longrightarrow> p k \<le> k) \<Longrightarrow> i < m \<Longrightarrow> shuffle_from p i xs ! m = xs ! m"
proof (induction i arbitrary: xs)
  case 0
  then show ?case by simp
next
  case (Suc i)
  have "p (Suc i) \<le> Suc i" using Suc.prems(1) [of "Suc i"] by simp
  then have "xs[Suc i := xs ! p (Suc i), p (Suc i) := xs ! Suc i] ! m = xs ! m"
    using Suc.prems(2) by simp
  moreover have "shuffle_from p i (xs[Suc i := xs ! p (Suc i), p (Suc i) := xs ! Suc i]) ! m
      = xs[Suc i := xs ! p (Suc i), p (Suc i) := xs ! Suc i] ! m"
    using Suc.prems by (intro Suc.IH) simp_all
  ultimately show ?case by simp
qed

lemma swap_nth_upper:
  "i < length xs \<Longrightarrow> j \<le> i \<Longrightarrow> xs[i := xs ! j, j := xs ! i] ! i = xs ! j"
  by (cases "j = i") simp_all

lemma shuffle_from_inj:
  "distinct xs \<Longrightarrow> i < length xs
    \<Longrightarrow> (\<And>k. 1 \<le> k \<Longrightarrow> k \<le> i \<Longrightarrow> p k \<le> k)
    \<Longrightarrow> (\<And>k. 1 \<le> k \<Longrightarrow> k \<le> i \<Longrightarrow> q k \<le> k)
    \<Longrightarrow> shuffle_from p i xs = shuffle_from q i xs
    \<Longrightarrow> 1 \<le> k \<Longrightarrow> k \<le> i \<Longrightarrow> p k = q k"
proof (induction i arbitrary: xs)
  case 0
  then show ?case by simp
next
  case (Suc i)
  let ?xp = "xs[Suc i := xs ! p (Suc i), p (Suc i) := xs ! Suc i]"
  let ?xq = "xs[Suc i := xs ! q (Suc i), q (Suc i) := xs ! Suc i]"
  have pj: "p (Suc i) \<le> Suc i" and qj: "q (Suc i) \<le> Suc i"
    using Suc.prems(3) [of "Suc i"] Suc.prems(4) [of "Suc i"] by simp_all
  have eq: "shuffle_from p i ?xp = shuffle_from q i ?xq"
    using Suc.prems(5) by simp
  have "shuffle_from p i ?xp ! Suc i = ?xp ! Suc i"
    using Suc.prems(3) by (intro shuffle_from_above) simp_all
  moreover have "shuffle_from q i ?xq ! Suc i = ?xq ! Suc i"
    using Suc.prems(4) by (intro shuffle_from_above) simp_all
  ultimately have "?xp ! Suc i = ?xq ! Suc i"
    using eq by simp
  then have "xs ! p (Suc i) = xs ! q (Suc i)"
    using swap_nth_upper [OF Suc.prems(2) pj] swap_nth_upper [OF Suc.prems(2) qj] by simp
  then have top: "p (Suc i) = q (Suc i)"
    using Suc.prems(1,2) pj qj by (simp add: nth_eq_iff_index_eq)
  show ?case
  proof (cases "k = Suc i")
    case True
    then show ?thesis using top by simp
  next
    case False
    have "mset ?xp = mset xs"
      using mset_swap [of "p (Suc i)" xs "Suc i"] pj Suc.prems(2) by simp
    then have d: "distinct ?xp"
      using Suc.prems(1) by (metis distinct_count_atmost_1 set_mset_mset)
    have "shuffle_from p i ?xp = shuffle_from q i ?xp"
      using eq top by simp
    then show ?thesis
      using d Suc.prems(2,3,4,6,7) False by (intro Suc.IH [of ?xp]) simp_all
  qed
qed

lemma mset_take_swap:
  assumes "i < n" and "j < n" and "n \<le> length xs"
  shows "mset (take n (xs[i := xs ! j, j := xs ! i])) = mset (take n xs)"
proof -
  have "take n (xs[i := xs ! j, j := xs ! i]) = (take n xs)[i := take n xs ! j, j := take n xs ! i]"
    using assms by (simp add: take_update_swap)
  then show ?thesis
    using mset_swap [of j "take n xs" i] assms by simp
qed

lemma shuffle_from_surj:
  "i < length xs \<Longrightarrow> length ys = length xs
    \<Longrightarrow> mset (take (Suc i) ys) = mset (take (Suc i) xs)
    \<Longrightarrow> drop (Suc i) ys = drop (Suc i) xs
    \<Longrightarrow> \<exists>p. (\<forall>k. p k \<le> k) \<and> shuffle_from p i xs = ys"
proof (induction i arbitrary: xs)
  case 0
  have "take (Suc 0) ys = [ys ! 0]" "take (Suc 0) xs = [xs ! 0]"
    using "0.prems"(1,2) by (simp_all add: take_Suc_conv_app_nth)
  then have "take (Suc 0) ys = take (Suc 0) xs"
    using "0.prems"(3) by simp
  then have "ys = xs"
    using "0.prems"(4) by (metis append_take_drop_id)
  then have "shuffle_from (\<lambda>k. 0) 0 xs = ys"
    by simp
  then show ?case
    by (intro exI [of _ "\<lambda>k. 0"]) simp
next
  case (Suc i)
  let ?n = "Suc (Suc i)"
  let ?y = "ys ! Suc i"
  have lt: "Suc i < length ys" using Suc.prems(1,2) by simp
  have tys: "take ?n ys = take (Suc i) ys @ [?y]"
    using lt by (simp add: take_Suc_conv_app_nth)
  then have "?y \<in># mset (take ?n xs)"
    using Suc.prems(3) by (metis in_set_conv_decomp set_mset_mset)
  then have "?y \<in> set (take ?n xs)" by simp
  then obtain j where j: "j < ?n" "xs ! j = ?y"
    using Suc.prems(1) by (auto simp: in_set_conv_nth)
  have jl: "j < length xs" using j(1) Suc.prems(1) by simp
  let ?xs = "xs[Suc i := xs ! j, j := xs ! Suc i]"
  have top: "?xs ! Suc i = ?y"
    using swap_nth_upper [OF Suc.prems(1), of j] j by simp
  have txs: "take ?n ?xs = take (Suc i) ?xs @ [?y]"
    using Suc.prems(1) top by (simp add: take_Suc_conv_app_nth)
  have "mset (take ?n ?xs) = mset (take ?n xs)"
    using j(1) Suc.prems(1) by (intro mset_take_swap) simp_all
  then have "mset (take ?n ?xs) = mset (take ?n ys)"
    using Suc.prems(3) by simp
  then have "add_mset ?y (mset (take (Suc i) ?xs)) = add_mset ?y (mset (take (Suc i) ys))"
    unfolding tys txs by simp
  then have pre: "mset (take (Suc i) ys) = mset (take (Suc i) ?xs)"
    by simp
  have "drop ?n ?xs = drop ?n xs"
    using j(1) by simp
  then have "drop (Suc i) ?xs = ?y # drop ?n ys"
    using Suc.prems(1,4) top by (metis Cons_nth_drop_Suc length_list_update)
  then have dr: "drop (Suc i) ys = drop (Suc i) ?xs"
    using lt by (simp add: Cons_nth_drop_Suc)
  have "\<exists>p. (\<forall>k. p k \<le> k) \<and> shuffle_from p i ?xs = ys"
    using Suc.prems(1,2) pre dr by (intro Suc.IH) simp_all
  then obtain p' where p': "\<forall>k. p' k \<le> k" "shuffle_from p' i ?xs = ys"
    by blast
  let ?p = "p'(Suc i := j)"
  have "shuffle_from ?p i ?xs = shuffle_from p' i ?xs"
    by (intro shuffle_from_cong) simp
  then have "shuffle_from ?p (Suc i) xs = ys"
    using p'(2) by simp
  moreover have "\<forall>k. ?p k \<le> k"
    using p'(1) j(1) by simp
  ultimately show ?case by blast
qed

lemma draw_eq_iff:
  assumes "0 \<le> rnd (n - 1 - i)"
  shows "draw rnd n i = j \<longleftrightarrow>
    of_nat j / of_nat (i + 1) \<le> rnd (n - 1 - i) \<and> rnd (n - 1 - i) < of_nat (j + 1) / of_nat (i + 1)"
proof -
  define u where "u = rnd (n - 1 - i)"
  define m :: rat where "m = of_nat (i + 1)"
  have m: "0 < m" by (simp add: m_def)
  have "0 \<le> u * m" using assms m by (simp add: u_def)
  then have nonneg: "0 \<le> \<lfloor>u * m\<rfloor>" by simp
  have "draw rnd n i = j \<longleftrightarrow> \<lfloor>u * m\<rfloor> = int j"
    using nonneg unfolding draw_def u_def m_def by linarith
  also have "\<dots> \<longleftrightarrow> of_int (int j) \<le> u * m \<and> u * m < of_int (int j) + 1"
    by (rule floor_eq_iff)
  also have "\<dots> \<longleftrightarrow> of_nat j / m \<le> u \<and> u < of_nat (j + 1) / m"
    using m by (simp add: pos_divide_le_eq pos_less_divide_eq add.commute)
  finally show ?thesis by (simp add: u_def m_def)
qed

lemma box_volume_fact: "box_volume n = 1 / fact n"
proof -
  have "(\<Prod>k < m. (1::rat) / of_nat (Suc m - k)) = 1 / fact (Suc m)" for m
  proof (induction m)
    case 0
    then show ?case by simp
  next
    case (Suc m)
    have "(\<Prod>k < Suc m. (1::rat) / of_nat (Suc (Suc m) - k))
        = 1 / of_nat (Suc (Suc m)) * (\<Prod>k < m. 1 / of_nat (Suc m - k))"
      by (simp only: prod.lessThan_Suc_shift comp_def diff_Suc_Suc diff_zero)
    also have "\<dots> = 1 / of_nat (Suc (Suc m)) * (1 / fact (Suc m))"
      by (simp only: Suc.IH)
    also have "\<dots> = 1 / fact (Suc (Suc m))"
      by (simp only: fact_Suc [of "Suc m"] times_divide_times_eq mult_1)
    finally show ?case .
  qed
  from this [of "n - 1"] show ?thesis
    by (cases n) (simp_all add: box_volume_def)
qed

lemma shuffle_in_box:
  assumes d: "distinct xs" and len: "xs \<noteq> []"
    and p: "\<forall>k. p k \<le> k" "shuffle_from p (length xs - 1) xs = ys"
    and rnd: "\<forall>k. 0 \<le> rnd k \<and> rnd k < 1"
  shows "shuffle rnd xs = ys \<longleftrightarrow> in_box (length xs) (\<lambda>k. p (length xs - 1 - k)) rnd"
proof -
  define n where "n = length xs"
  have n: "n - 1 < length xs" "0 < n" using len by (simp_all add: n_def)
  have dle: "draw rnd n i \<le> i" for i
    using rnd by (intro draw_le) simp_all
  have cell: "draw rnd n i = p i \<longleftrightarrow>
      of_nat (p i) / of_nat (i + 1) \<le> rnd (n - 1 - i)
      \<and> rnd (n - 1 - i) < of_nat (p i + 1) / of_nat (i + 1)" for i
    using rnd by (intro draw_eq_iff) simp
  have "shuffle rnd xs = ys \<longleftrightarrow> (\<forall>i. 1 \<le> i \<and> i \<le> n - 1 \<longrightarrow> draw rnd n i = p i)"
  proof
    assume "shuffle rnd xs = ys"
    then have eq: "shuffle_from (draw rnd n) (n - 1) xs = shuffle_from p (n - 1) xs"
      using p(2) by (simp add: shuffle_def n_def)
    show "\<forall>i. 1 \<le> i \<and> i \<le> n - 1 \<longrightarrow> draw rnd n i = p i"
    proof (intro allI impI)
      fix i assume "1 \<le> i \<and> i \<le> n - 1"
      then show "draw rnd n i = p i"
        using shuffle_from_inj [OF d n(1) _ _ eq, of i] dle p(1) by simp
    qed
  next
    assume "\<forall>i. 1 \<le> i \<and> i \<le> n - 1 \<longrightarrow> draw rnd n i = p i"
    then have "shuffle_from (draw rnd n) (n - 1) xs = shuffle_from p (n - 1) xs"
      by (intro shuffle_from_cong) simp
    then show "shuffle rnd xs = ys"
      using p(2) by (simp add: shuffle_def n_def)
  qed
  also have "\<dots> \<longleftrightarrow> (\<forall>k < n - 1. draw rnd n (n - 1 - k) = p (n - 1 - k))"
  proof
    assume a: "\<forall>i. 1 \<le> i \<and> i \<le> n - 1 \<longrightarrow> draw rnd n i = p i"
    show "\<forall>k < n - 1. draw rnd n (n - 1 - k) = p (n - 1 - k)"
    proof (intro allI impI)
      fix k assume "k < n - 1"
      then have "1 \<le> n - 1 - k \<and> n - 1 - k \<le> n - 1" by linarith
      then show "draw rnd n (n - 1 - k) = p (n - 1 - k)" using a by blast
    qed
  next
    assume a: "\<forall>k < n - 1. draw rnd n (n - 1 - k) = p (n - 1 - k)"
    show "\<forall>i. 1 \<le> i \<and> i \<le> n - 1 \<longrightarrow> draw rnd n i = p i"
    proof (intro allI impI)
      fix i assume i: "1 \<le> i \<and> i \<le> n - 1"
      then have "n - 1 - i < n - 1" "n - 1 - (n - 1 - i) = i" by linarith+
      then show "draw rnd n i = p i" using a by metis
    qed
  qed
  also have "\<dots> \<longleftrightarrow> in_box n (\<lambda>k. p (n - 1 - k)) rnd"
  proof -
    have "n - 1 - (n - 1 - k) = k" "n - 1 - k + 1 = n - k" if "k < n - 1" for k
      using that by simp_all
    then show ?thesis
      unfolding in_box_def by (simp add: cell cong: all_cong)
  qed
  finally show ?thesis by (simp add: n_def)
qed

lemma shuffle_permutes:
  "\<forall>rnd. (\<forall>k. 0 \<le> rnd k \<and> rnd k < 1) \<longrightarrow> mset (shuffle rnd xs) = mset xs"
proof (intro allI impI)
  fix rnd :: "nat \<Rightarrow> rat" assume "\<forall>k. 0 \<le> rnd k \<and> rnd k < 1"
  then show "mset (shuffle rnd xs) = mset xs" by (rule mset_shuffle)
qed

lemma box_of_permutation_Nil:
  assumes "xs = []" and "mset ys = mset xs"
  shows "\<exists>J. (\<forall>k < length xs - 1. J k \<le> length xs - 1 - k)
           \<and> (\<forall>rnd. (\<forall>k. 0 \<le> rnd k \<and> rnd k < 1) \<longrightarrow>
                 (shuffle rnd xs = ys \<longleftrightarrow> in_box (length xs) J rnd))"
proof -
  have "ys = []" using assms by simp
  then have "shuffle rnd xs = ys \<longleftrightarrow> in_box (length xs) (\<lambda>k. 0) rnd" for rnd
    using assms(1) by (simp add: shuffle_def in_box_def)
  then show ?thesis using assms(1) by (intro exI [of _ "\<lambda>k. 0"]) simp
qed

lemma box_of_permutation_Cons:
  assumes "distinct xs" and "xs \<noteq> []" and "mset ys = mset xs"
  shows "\<exists>J. (\<forall>k < length xs - 1. J k \<le> length xs - 1 - k)
           \<and> (\<forall>rnd. (\<forall>k. 0 \<le> rnd k \<and> rnd k < 1) \<longrightarrow>
                 (shuffle rnd xs = ys \<longleftrightarrow> in_box (length xs) J rnd))"
proof -
  have len: "length ys = length xs"
    using assms(3) by (rule mset_eq_length)
  have "\<exists>p. (\<forall>k. p k \<le> k) \<and> shuffle_from p (length xs - 1) xs = ys"
  proof (rule shuffle_from_surj)
    show "length xs - 1 < length xs" using assms(2) by simp
    show "length ys = length xs" by (rule len)
    have "Suc (length xs - 1) = length xs" using assms(2) by simp
    then show "mset (take (Suc (length xs - 1)) ys) = mset (take (Suc (length xs - 1)) xs)"
      "drop (Suc (length xs - 1)) ys = drop (Suc (length xs - 1)) xs"
      using len assms(3) by simp_all
  qed
  then obtain p where p: "\<forall>k. p k \<le> k" "shuffle_from p (length xs - 1) xs = ys"
    by blast
  let ?J = "\<lambda>k. p (length xs - 1 - k)"
  have b: "\<forall>k < length xs - 1. ?J k \<le> length xs - 1 - k"
    using p(1) by simp
  have c: "\<forall>rnd. (\<forall>k. 0 \<le> rnd k \<and> rnd k < 1) \<longrightarrow>
      (shuffle rnd xs = ys \<longleftrightarrow> in_box (length xs) ?J rnd)"
  proof (intro allI impI)
    fix rnd :: "nat \<Rightarrow> rat" assume "\<forall>k. 0 \<le> rnd k \<and> rnd k < 1"
    then show "shuffle rnd xs = ys \<longleftrightarrow> in_box (length xs) ?J rnd"
      by (rule shuffle_in_box [OF assms(1,2) p])
  qed
  show ?thesis
    by (rule exI [of _ ?J]) (use b c in blast)
qed

text \<open>The shuffle moves positions and never looks at the elements: shuffling a list is
  shuffling its positions \<open>[0..<n]\<close> and reading the elements off. So what is proved
  for distinct candidates holds for the positions of any candidate list.\<close>

lemma shuffle_from_map:
  "i < length xs \<Longrightarrow> (\<And>k. k \<le> i \<Longrightarrow> p k \<le> k)
    \<Longrightarrow> shuffle_from p i (map f xs) = map f (shuffle_from p i xs)"
proof (induction i arbitrary: xs)
  case 0
  then show ?case by simp
next
  case (Suc i)
  have j: "p (Suc i) < length xs"
    using Suc.prems(1) Suc.prems(2) [of "Suc i"] by simp
  let ?xs = "xs[Suc i := xs ! p (Suc i), p (Suc i) := xs ! Suc i]"
  have "(map f xs)[Suc i := map f xs ! p (Suc i), p (Suc i) := map f xs ! Suc i] = map f ?xs"
    using j Suc.prems(1) by (simp add: map_update)
  moreover have "shuffle_from p i (map f ?xs) = map f (shuffle_from p i ?xs)"
    using Suc.prems by (intro Suc.IH) simp_all
  ultimately show ?case by simp
qed

lemma shuffle_by_positions:
  assumes "\<forall>k. 0 \<le> rnd k \<and> rnd k < 1"
  shows "shuffle rnd xs = map ((!) xs) (shuffle rnd [0..<length xs])"
proof (cases "xs = []")
  case True
  then show ?thesis by (simp add: shuffle_def)
next
  case False
  have "shuffle_from (draw rnd (length xs)) (length xs - 1) (map ((!) xs) [0..<length xs])
      = map ((!) xs) (shuffle_from (draw rnd (length xs)) (length xs - 1) [0..<length xs])"
    using False assms by (intro shuffle_from_map draw_le) simp_all
  then show ?thesis
    by (simp add: shuffle_def map_nth)
qed

text \<open>
  C9. Let the candidates \<open>xs\<close> be distinct, \<open>n\<close> their number, and the random source
  return values in \<open>[0, 1)\<close>. The shuffle of \<open>buildQueue\<close> returns a permutation of
  \<open>xs\<close>. For every permutation \<open>ys\<close> of \<open>xs\<close> there are indices \<open>J k \<le> n - 1 - k\<close>, one for
  each of the \<open>n - 1\<close> calls of \<^verbatim>\<open>Math.random\<close>, such that the shuffle returns \<open>ys\<close> exactly
  when the \<open>k\<close>-th random value lies in \<open>[J k / (n - k), (J k + 1) / (n - k))\<close> for every
  \<open>k\<close>. So the random sources that produce \<open>ys\<close> form a box with sides
  \<open>1 / n, 1 / (n - 1), \<dots>, 1 / 2\<close>, of volume \<open>1 / n!\<close>, the same for every one of the
  \<open>n!\<close> permutations: with independent uniform values each permutation has probability
  \<open>1 / n!\<close>.
\<close>

theorem shuffle_uniform:
  assumes "distinct xs" and "mset ys = mset xs"
  shows "(\<forall>rnd. (\<forall>k. 0 \<le> rnd k \<and> rnd k < 1) \<longrightarrow> mset (shuffle rnd xs) = mset xs)
       \<and> (\<exists>J. (\<forall>k < length xs - 1. J k \<le> length xs - 1 - k)
              \<and> (\<forall>rnd. (\<forall>k. 0 \<le> rnd k \<and> rnd k < 1) \<longrightarrow>
                    (shuffle rnd xs = ys \<longleftrightarrow> in_box (length xs) J rnd)))
       \<and> box_volume (length xs) = 1 / fact (length xs)"
proof (intro conjI)
  show "\<forall>rnd. (\<forall>k. 0 \<le> rnd k \<and> rnd k < 1) \<longrightarrow> mset (shuffle rnd xs) = mset xs"
    by (rule shuffle_permutes)
  show "box_volume (length xs) = 1 / fact (length xs)"
    by (rule box_volume_fact)
  show "\<exists>J. (\<forall>k < length xs - 1. J k \<le> length xs - 1 - k)
           \<and> (\<forall>rnd. (\<forall>k. 0 \<le> rnd k \<and> rnd k < 1) \<longrightarrow>
                 (shuffle rnd xs = ys \<longleftrightarrow> in_box (length xs) J rnd))"
  proof (cases "xs = []")
    case True
    then show ?thesis using assms(2) by (rule box_of_permutation_Nil)
  next
    case False
    with assms(1) show ?thesis using assms(2) by (rule box_of_permutation_Cons)
  qed
qed

text \<open>Three candidates and the source that always returns 0.5: the shuffle gives
  \<open>[0, 2, 1]\<close>, the source lies in the box of that permutation, and the volume of the
  box is \<open>1 / 6\<close>.\<close>

theorem shuffle_uniform_witness:
  "distinct [0, 1, 2 :: nat] \<and> mset [0, 2, 1] = mset [0, 1, 2 :: nat]
   \<and> shuffle halves [0, 1, 2 :: nat] = [0, 2, 1]
   \<and> (\<exists>J. J 0 \<le> 2 \<and> J 1 \<le> 1 \<and> in_box 3 J halves)
   \<and> box_volume 3 = 1 / 6"
proof -
  have h1: "distinct [0, 1, 2 :: nat]" by simp
  have h2: "mset [0, 2, 1] = mset [0, 1, 2 :: nat]" by simp
  have valid: "\<forall>k. 0 \<le> halves k \<and> halves k < 1" by (simp add: halves_def)
  have sh: "shuffle halves [0, 1, 2 :: nat] = [0, 2, 1]" by code_simp
  have l: "length [0, 1, 2 :: nat] = 3" by simp
  from shuffle_uniform [OF h1 h2, unfolded l]
  obtain J where J: "\<forall>k < 3 - 1. J k \<le> 3 - 1 - k"
    and iff: "\<forall>rnd. (\<forall>k. 0 \<le> rnd k \<and> rnd k < 1) \<longrightarrow>
       (shuffle rnd [0, 1, 2 :: nat] = [0, 2, 1] \<longleftrightarrow> in_box 3 J rnd)"
    and vol: "box_volume 3 = 1 / fact 3"
    by blast
  have "shuffle halves [0, 1, 2 :: nat] = [0, 2, 1] \<longleftrightarrow> in_box 3 J halves"
    using iff valid by blast
  then have box: "in_box 3 J halves"
    using sh by (rule iffD1)
  have "(0::nat) < 3 - 1" "(1::nat) < 3 - 1" by simp_all
  then have "J 0 \<le> 3 - 1 - 0" "J 1 \<le> 3 - 1 - 1"
    using J by blast+
  then have j: "J 0 \<le> 2 \<and> J 1 \<le> 1 \<and> in_box 3 J halves"
    using box by simp
  have v: "box_volume 3 = 1 / 6"
    unfolding vol by (simp add: fact_numeral)
  show ?thesis
    using h1 h2 sh v exI [of "\<lambda>J. J 0 \<le> 2 \<and> J 1 \<le> 1 \<and> in_box 3 J halves" J, OF j]
    by (intro conjI)
qed

end
